theory Spec2Isabelle
  imports Main
begin

section \<open>JavaScript values\<close>

text \<open>
  The values that flow through the stores, the hydration payload and the mock dataset.
  Strings are byte lists (the UTF-8 encoding of the JavaScript string); numbers are the
  integers the program uses (counts); an object is the list of its own properties in
  insertion order, and where a name occurs twice the later entry is the property's value
  (as in an object literal and in \<open>JSON.parse\<close>).
\<close>

datatype jsval =
    JUndefined
  | JNull
  | JBool bool
  | JNum int
  | JStr string
  | JArr "jsval list"
  | JObj "(string \<times> jsval) list"

text \<open>
  What a call can end with instead of a result: a thrown \<open>TypeError\<close>, or
  \<open>Unmodelled\<close> where the input leaves the part of the JavaScript engine that is
  modelled here (a regular expression outside the fragment below, the length of a string,
  a comparison with a value that is not a number); nothing is stated about the program
  there.
\<close>

datatype error = TypeError | Unmodelled

text \<open>ToBoolean: what \<open>if (v)\<close>, \<open>v || w\<close> and \<open>v && w\<close> test.\<close>

fun truthy :: "jsval \<Rightarrow> bool" where
  "truthy JUndefined = False"
| "truthy JNull = False"
| "truthy (JBool b) = b"
| "truthy (JNum n) = (n \<noteq> 0)"
| "truthy (JStr s) = (s \<noteq> [])"
| "truthy (JArr xs) = True"
| "truthy (JObj kvs) = True"

definition js_or :: "jsval \<Rightarrow> jsval \<Rightarrow> jsval" where
  "js_or v w = (if truthy v then v else w)"

text \<open>
  \<open>v.name\<close> for one of the data property names the program reads (\<open>products\<close>,
  \<open>totalCount\<close>, \<open>currentProduct\<close>, ...; none of them is a built-in property of a
  string, an array, a number or a boolean): a TypeError on \<open>null\<close> and \<open>undefined\<close>, the
  property's value on an object that has it, \<open>undefined\<close> otherwise.
\<close>

definition lookup_prop :: "(string \<times> jsval) list \<Rightarrow> string \<Rightarrow> jsval" where
  "lookup_prop kvs k = (case map_of (rev kvs) k of None \<Rightarrow> JUndefined | Some v \<Rightarrow> v)"

fun get_prop :: "jsval \<Rightarrow> string \<Rightarrow> error + jsval" where
  "get_prop JUndefined k = Inl TypeError"
| "get_prop JNull k = Inl TypeError"
| "get_prop (JObj kvs) k = Inr (lookup_prop kvs k)"
| "get_prop v k = Inr JUndefined"

text \<open>The same read where the receiver is known not to be \<open>null\<close> or \<open>undefined\<close>.\<close>

fun read_prop :: "jsval \<Rightarrow> string \<Rightarrow> jsval" where
  "read_prop (JObj kvs) k = lookup_prop kvs k"
| "read_prop v k = JUndefined"

text \<open>The decimal name of an array index, as a property key.\<close>

function index_key :: "nat \<Rightarrow> string" where
  "index_key n =
     (if n < 10 then [char_of (48 + n)]
      else index_key (n div 10) @ [char_of (48 + n mod 10)])"
  by pat_completeness auto
termination
  by (relation "measure id") auto

declare index_key.simps [simp del]

text \<open>
  The own enumerable properties an object spread \<open>{...v}\<close> copies, in order: the
  properties of an object, the indexed elements of an array, the indexed characters of a
  string, nothing for the other values. A string is spread here byte by byte, which is
  JavaScript's spread by UTF-16 code unit for ASCII strings only.
\<close>

fun own_props :: "jsval \<Rightarrow> (string \<times> jsval) list" where
  "own_props (JObj kvs) = kvs"
| "own_props (JArr xs) = zip (map index_key [0..<length xs]) xs"
| "own_props (JStr s) = zip (map index_key [0..<length s]) (map (\<lambda>c. JStr [c]) s)"
| "own_props v = []"

section \<open>The server store (createServerStore)\<close>

text \<open>
  A store's state is an object whose fields the reducer replaces; \<open>{...state, f: v}\<close> is a
  map update and \<open>{...state, ...payload}\<close> overrides \<open>state\<close> by the payload's own
  properties.
\<close>

type_synonym state = "string \<rightharpoonup> jsval"

record action =
  type :: string
  payload :: jsval

text \<open>
  The action kinds come from \<open>./stores/actionTypes.js\<close> (\<open>PRODUCT_ACTIONS\<close>), which is
  not among the sources: the table is a parameter. The fields are the kinds the server
  renderer and the hydration bridge name.
\<close>

record product_actions =
  SET_PRODUCTS :: string
  SET_CATEGORIES :: string
  SET_CURRENT_PRODUCT :: string
  SET_RELATED_PRODUCTS :: string
  SETUP :: string
  SET_ERROR :: string

definition spread_merge :: "state \<Rightarrow> jsval \<Rightarrow> state" where
  "spread_merge st p = st ++ map_of (rev (own_props p))"

definition createServerStore :: "state \<Rightarrow> state" where
  "createServerStore initialState = initialState"

definition getState :: "state \<Rightarrow> state" where
  "getState st = st"

text \<open>
  \<open>dispatch\<close>: the \<open>switch\<close> compares \<open>action.type\<close> with the case labels in order; a kind
  with no case leaves \<open>state\<close> as it is. The one read that can throw is
  \<open>action.payload.products\<close> on a \<open>null\<close> or \<open>undefined\<close> payload.
\<close>

definition dispatch :: "product_actions \<Rightarrow> state \<Rightarrow> action \<Rightarrow> error + state" where
  "dispatch PA st a =
     (if type a = SET_PRODUCTS PA then
        (case get_prop (payload a) ''products'' of
           Inl e \<Rightarrow> Inl e
         | Inr ps \<Rightarrow>
             Inr (st(''products'' \<mapsto> ps,
                     ''totalCount'' \<mapsto> read_prop (payload a) ''totalCount'',
                     ''loading'' \<mapsto> JBool False,
                     ''error'' \<mapsto> JNull)))
      else if type a = SET_CATEGORIES PA then
        Inr (st(''categories'' \<mapsto> payload a))
      else if type a = SET_CURRENT_PRODUCT PA then
        Inr (st(''currentProduct'' \<mapsto> payload a,
                ''loading'' \<mapsto> JBool False,
                ''error'' \<mapsto> JNull))
      else if type a = SET_RELATED_PRODUCTS PA then
        Inr (st(''relatedProducts'' \<mapsto> payload a))
      else if type a = SETUP PA then
        Inr (spread_merge st (payload a))
      else Inr st)"

text \<open>
  Modelled from the spec: the values of \<open>PRODUCT_ACTIONS\<close> (\<open>./stores/actionTypes.js\<close> is
  not among the sources). Section 3 makes an action's kind a string tag drawn from a fixed
  enumeration; this table gives every kind a tag of its own. The theorems below hold for
  any table and use this one for their concrete instances.
\<close>

definition PRODUCT_ACTIONS :: product_actions where
  "PRODUCT_ACTIONS =
     \<lparr>SET_PRODUCTS = ''products/setProducts'',
      SET_CATEGORIES = ''products/setCategories'',
      SET_CURRENT_PRODUCT = ''products/setCurrentProduct'',
      SET_RELATED_PRODUCTS = ''products/setRelatedProducts'',
      SETUP = ''products/setup'',
      SET_ERROR = ''products/setError''\<rparr>"

section \<open>The hydration bridge (hydrateInitialData)\<close>

text \<open>
  The browser side: \<open>window\<close> is the global object's property map (\<open>None\<close> where
  \<open>typeof window\<close> is \<open>"undefined"\<close>), and the three domain stores are module state.
  \<open>delete window.__INITIAL_DATA__\<close> removes the property. The \<open>console.log\<close> call
  is left out.

  Modelled from the spec: the client \<open>productStore\<close> (\<open>./stores\<close>, not among the
  sources) is a Store of section 4.3, whose \<open>dispatch\<close> replaces the state by
  \<open>reducer(state, action)\<close> with a pure and total reducer; the reducer is a parameter of
  the bridge.
\<close>

record stores =
  productStore :: state
  cartStore :: state
  uiStore :: state

record client = stores +
  window :: "(string \<rightharpoonup> jsval) option"

definition initial_data :: "client \<Rightarrow> jsval" where
  "initial_data c =
     (case window c of
        None \<Rightarrow> JUndefined
      | Some w \<Rightarrow> (case w ''__INITIAL_DATA__'' of None \<Rightarrow> JUndefined | Some d \<Rightarrow> d))"

definition setup_payload :: "jsval \<Rightarrow> jsval" where
  "setup_payload data =
     JObj [(''products'', read_prop data ''products''),
           (''totalCount'', read_prop data ''totalCount''),
           (''categories'', js_or (read_prop data ''categories'') (JObj [])),
           (''loading'', JBool False),
           (''error'', JNull)]"

definition store_dispatch :: "(state \<Rightarrow> action \<Rightarrow> state) \<Rightarrow> action \<Rightarrow> client \<Rightarrow> client" where
  "store_dispatch reducer a c = c\<lparr>productStore := reducer (productStore c) a\<rparr>"

definition hydrateInitialData ::
  "(state \<Rightarrow> action \<Rightarrow> state) \<Rightarrow> product_actions \<Rightarrow> client \<Rightarrow> client" where
  "hydrateInitialData reducer PA c =
     (case window c of
        None \<Rightarrow> c
      | Some w \<Rightarrow>
          let data = initial_data c in
          if \<not> truthy data then c
          else
            let c1 = (if truthy (read_prop data ''products'')
                      then store_dispatch reducer
                             \<lparr>type = SETUP PA, payload = setup_payload data\<rparr> c
                      else c);
                c2 = (if truthy (read_prop data ''currentProduct'')
                      then
                        let c' = store_dispatch reducer
                                   \<lparr>type = SET_CURRENT_PRODUCT PA,
                                    payload = read_prop data ''currentProduct''\<rparr> c1
                        in if truthy (read_prop data ''relatedProducts'')
                           then store_dispatch reducer
                                  \<lparr>type = SET_RELATED_PRODUCTS PA,
                                   payload = read_prop data ''relatedProducts''\<rparr> c'
                           else c'
                      else c1)
            in c2\<lparr>window := Some (w(''__INITIAL_DATA__'' := None))\<rparr>)"

section \<open>The server router (ServerRouter)\<close>

text \<open>\<open>s.split(sep)\<close> for a one-character separator: always at least one piece.\<close>

fun split_on :: "char \<Rightarrow> string \<Rightarrow> string list" where
  "split_on sep [] = [[]]"
| "split_on sep (c # cs) =
     (if c = sep then [] # split_on sep cs
      else (case split_on sep cs of
              [] \<Rightarrow> [[c]]
            | p # ps \<Rightarrow> (c # p) # ps))"

text \<open>
  \<open>path.replace(/:([^/]+)/g, ...)\<close>: every \<open>:\<close> that is followed by at least one
  character other than \<open>/\<close> is replaced, together with the longest run of such characters
  (the parameter's name), by the text \<open>([^/]+)\<close>; the names are collected in order. A
  \<open>:\<close> followed by \<open>/\<close> or by the end of the pattern does not match and stays.
\<close>

definition not_slash :: "char \<Rightarrow> bool" where
  "not_slash c = (c \<noteq> CHR ''/'')"

function replace_params :: "string \<Rightarrow> string \<times> string list" where
  "replace_params [] = ([], [])"
| "replace_params (c # cs) =
     (if c = CHR '':'' \<and> takeWhile not_slash cs \<noteq> []
      then (case replace_params (dropWhile not_slash cs) of
              (r, ns) \<Rightarrow> (''([^/]+)'' @ r, takeWhile not_slash cs # ns))
      else (case replace_params cs of (r, ns) \<Rightarrow> (c # r, ns)))"
  by pat_completeness auto
termination
  by (relation "measure length") (auto simp: length_dropWhile_le less_Suc_eq_le)

text \<open>
  The regular expressions: \<open>new RegExp("^" + body + "$")\<close> is modelled for the bodies made
  of the capture group \<open>([^/]+)\<close>, of characters that are not syntax characters of the
  pattern language, each of which matches itself, and of the alternation bar \<open>|\<close>, which
  the code pastes into the expression like any other character of the pattern. Any other
  source is \<open>Unmodelled\<close>.
\<close>

datatype tok = Chr char | Grp | Bar

definition syntax_char :: "char \<Rightarrow> bool" where
  "syntax_char c = (c \<in> set (CHR 0x5C # ''^$.*+?()[]{}|''))"

fun RegExp_body :: "string \<Rightarrow> error + tok list" where
  "RegExp_body [] = Inr []"
| "RegExp_body (c # cs) =
     (if c = CHR ''('' \<and> take 6 cs = ''[^/]+)''
      then (case RegExp_body (drop 6 cs) of Inl e \<Rightarrow> Inl e | Inr ts \<Rightarrow> Inr (Grp # ts))
      else if c = CHR ''|''
      then (case RegExp_body cs of Inl e \<Rightarrow> Inl e | Inr ts \<Rightarrow> Inr (Bar # ts))
      else if syntax_char c then Inl Unmodelled
      else (case RegExp_body cs of Inl e \<Rightarrow> Inl e | Inr ts \<Rightarrow> Inr (Chr c # ts)))"

definition new_RegExp :: "string \<Rightarrow> error + tok list" where
  "new_RegExp src =
     (case src of
        [] \<Rightarrow> Inl Unmodelled
      | c # rest \<Rightarrow>
          if c = CHR ''^'' \<and> rest \<noteq> [] \<and> last rest = CHR ''$''
          then RegExp_body (butlast rest)
          else Inl Unmodelled)"

text \<open>
  \<open>pathname.match(regex)\<close>: \<open>None\<close> for \<open>null\<close>, otherwise the captured groups
  (\<open>match[1]\<close>, \<open>match[2]\<close>, ...), \<open>undefined\<close> for a group of an alternative that did
  not take part in the match.

  A sequence of characters and groups is matched from the front of a text; a group takes
  the longest run of characters other than \<open>/\<close> first and gives back one character at a
  time, down to one, until the rest of the sequence matches. Where \<open>to_end\<close> holds the
  sequence must use up the text (the \<open>$\<close> anchor).
\<close>

fun grp_try :: "(string \<Rightarrow> string list option) \<Rightarrow> string \<Rightarrow> nat \<Rightarrow> string list option" where
  "grp_try k s 0 = None"
| "grp_try k s (Suc n) =
     (case k (drop (Suc n) s) of
        Some caps \<Rightarrow> Some (take (Suc n) s # caps)
      | None \<Rightarrow> grp_try k s n)"

primrec seq_match :: "bool \<Rightarrow> tok list \<Rightarrow> string \<Rightarrow> string list option" where
  "seq_match to_end [] s = (if to_end \<and> s \<noteq> [] then None else Some [])"
| "seq_match to_end (t # ts) s =
     (case t of
        Chr c \<Rightarrow>
          (case s of [] \<Rightarrow> None | x # xs \<Rightarrow> if x = c then seq_match to_end ts xs else None)
      | Grp \<Rightarrow> grp_try (seq_match to_end ts) s (length (takeWhile not_slash s))
      | Bar \<Rightarrow> None)"

text \<open>
  The bars split the expression \<open>^body$\<close> into alternatives: the \<open>^\<close> belongs to the
  first alternative only (it matches at the start of the text only) and the \<open>$\<close> to the
  last only (it must end at the end of the text). An expression without a bar is one
  alternative with both anchors.
\<close>

fun split_alts :: "tok list \<Rightarrow> tok list list" where
  "split_alts [] = [[]]"
| "split_alts (t # ts) =
     (if t = Bar then [] # split_alts ts
      else (case split_alts ts of
              [] \<Rightarrow> [[t]]
            | a # rest \<Rightarrow> (t # a) # rest))"

definition count_grp :: "tok list \<Rightarrow> nat" where
  "count_grp ts = length (filter (\<lambda>t. t = Grp) ts)"

text \<open>
  The alternatives are tried in order at one position of the text (\<open>s\<close> is the text from
  that position on, \<open>at_start\<close> says whether it is the start); \<open>skipped\<close> counts the groups
  of the alternatives already tried.
\<close>

fun try_alts :: "bool \<Rightarrow> bool \<Rightarrow> nat \<Rightarrow> tok list list \<Rightarrow> string \<Rightarrow> jsval list option" where
  "try_alts is_first at_start skipped [] s = None"
| "try_alts is_first at_start skipped (a # rest) s =
     (case (if is_first \<and> \<not> at_start then None else seq_match (rest = []) a s) of
        Some caps \<Rightarrow>
          Some (replicate skipped JUndefined @ map JStr caps @
                replicate (sum_list (map count_grp rest)) JUndefined)
      | None \<Rightarrow> try_alts False at_start (skipped + count_grp a) rest s)"

text \<open>The match is looked for at each position of the text in turn, the end included.\<close>

fun search :: "tok list list \<Rightarrow> bool \<Rightarrow> string \<Rightarrow> jsval list option" where
  "search alts at_start [] = try_alts True at_start 0 alts []"
| "search alts at_start (c # cs) =
     (case try_alts True at_start 0 alts (c # cs) of
        Some caps \<Rightarrow> Some caps
      | None \<Rightarrow> search alts False cs)"

definition rx_match :: "tok list \<Rightarrow> string \<Rightarrow> jsval list option" where
  "rx_match ts s = search (split_alts ts) True s"

record 'h route =
  path :: string
  regex :: "tok list"
  paramNames :: "string list"
  handler :: 'h

definition addRoute :: "string \<Rightarrow> 'h \<Rightarrow> 'h route list \<Rightarrow> error + 'h route list" where
  "addRoute p h routes =
     (case replace_params p of
        (regexPath, names) \<Rightarrow>
          (case new_RegExp (''^'' @ regexPath @ ''$'') of
             Inl e \<Rightarrow> Inl e
           | Inr rx \<Rightarrow>
               Inr (routes @ [\<lparr>path = p, regex = rx, paramNames = names, handler = h\<rparr>])))"

text \<open>
  \<open>obj[key] = value\<close> on a plain object, for a value that is a string or \<open>undefined\<close>:
  the key \<open>__proto__\<close> reaches the setter inherited from \<open>Object.prototype\<close>, which
  ignores such a value, so no property is created; every other key is set.
\<close>

definition js_assign :: "(string \<rightharpoonup> 'v) \<Rightarrow> string \<Rightarrow> 'v \<Rightarrow> (string \<rightharpoonup> 'v)" where
  "js_assign obj k v = (if k = ''__proto__'' then obj else obj(k \<mapsto> v))"

text \<open>\<open>route.paramNames.forEach((name, index) => { params[name] = match[index + 1]; })\<close>\<close>

definition build_params :: "string list \<Rightarrow> jsval list \<Rightarrow> (string \<rightharpoonup> jsval)" where
  "build_params names caps =
     foldl (\<lambda>params (index, name).
              js_assign params name
                (if index < length caps then caps ! index else JUndefined))
       Map.empty (enumerate 0 names)"

record 'h route_match =
  m_handler :: 'h
  m_params :: "string \<rightharpoonup> jsval"
  m_path :: string

fun first_match :: "'h route list \<Rightarrow> string \<Rightarrow> 'h route_match option" where
  "first_match [] pathname = None"
| "first_match (r # rs) pathname =
     (case rx_match (regex r) pathname of
        Some caps \<Rightarrow>
          Some \<lparr>m_handler = handler r,
                m_params = build_params (paramNames r) caps,
                m_path = path r\<rparr>
      | None \<Rightarrow> first_match rs pathname)"

definition path_of :: "string \<Rightarrow> string" where
  "path_of url = (case split_on CHR ''?'' url of [] \<Rightarrow> [] | p # ps \<Rightarrow> p)"

definition findRoute :: "'h route list \<Rightarrow> string \<Rightarrow> 'h route_match option" where
  "findRoute routes url = first_match routes (path_of url)"

section \<open>The request URL (render, lines 630 to 637)\<close>

text \<open>
  \<open>const [pathname, queryString] = url.split("?")\<close>: the first two pieces of the split;
  \<open>queryString\<close> is \<open>undefined\<close> (\<open>None\<close>) where the URL has no \<open>?\<close>, and pieces after
  the second are dropped.
\<close>

definition url_parts :: "string \<Rightarrow> string \<times> string option" where
  "url_parts url =
     (case split_on CHR ''?'' url of
        [] \<Rightarrow> ([], None)
      | [p] \<Rightarrow> (p, None)
      | p # q # rest \<Rightarrow> (p, Some q))"

text \<open>
  \<open>new URLSearchParams(queryString)\<close>, the form-urlencoded parser of the URL standard: a
  leading \<open>?\<close> is dropped, the text is split at \<open>&\<close>, empty pieces are skipped, each
  piece is split at its first \<open>=\<close> (a piece without one has the empty value), \<open>+\<close>
  becomes a space and \<open>%XY\<close> the byte \<open>XY\<close>; the bytes are then decoded as UTF-8.
  Strings being UTF-8 byte lists, the decoder copies every well-formed sequence and puts
  U+FFFD (the bytes EF BF BD) for every ill-formed one, as the decoder of the Encoding
  standard does.
\<close>

definition hex_val :: "char \<Rightarrow> nat option" where
  "hex_val c =
     (let n = (of_char c :: nat)
      in if 48 \<le> n \<and> n \<le> 57 then Some (n - 48)
         else if 65 \<le> n \<and> n \<le> 70 then Some (n - 55)
         else if 97 \<le> n \<and> n \<le> 102 then Some (n - 87)
         else None)"

fun percent_decode :: "string \<Rightarrow> string" where
  "percent_decode (c # h # l # cs) =
     (if c = CHR ''%'' then
        (case hex_val h of
           None \<Rightarrow> c # percent_decode (h # l # cs)
         | Some a \<Rightarrow>
             (case hex_val l of
                None \<Rightarrow> c # percent_decode (h # l # cs)
              | Some b \<Rightarrow> char_of (16 * a + b) # percent_decode cs))
      else c # percent_decode (h # l # cs))"
| "percent_decode cs = cs"

definition replacement :: string where
  "replacement = [CHR 0xEF, CHR 0xBF, CHR 0xBD]"

definition byte :: "char \<Rightarrow> nat" where
  "byte b = of_char b"

text \<open>
  The decoder's state: the number of continuation bytes still \<open>needed\<close>, the range
  \<open>lower\<close> to \<open>upper\<close> the next one must lie in, and the bytes \<open>seen\<close> of the sequence
  so far. A byte outside the range ends the sequence with an error and is read again as
  the start of the next one.
\<close>

function utf8_decode :: "nat \<Rightarrow> nat \<Rightarrow> nat \<Rightarrow> string \<Rightarrow> string \<Rightarrow> string" where
  "utf8_decode needed lower upper seen [] = (if needed = 0 then [] else replacement)"
| "utf8_decode needed lower upper seen (b # bs) =
     (if needed = 0 then
        (if byte b \<le> 0x7F then b # utf8_decode 0 0x80 0xBF [] bs
         else if 0xC2 \<le> byte b \<and> byte b \<le> 0xDF then utf8_decode 1 0x80 0xBF [b] bs
         else if 0xE0 \<le> byte b \<and> byte b \<le> 0xEF then
           utf8_decode 2 (if byte b = 0xE0 then 0xA0 else 0x80)
             (if byte b = 0xED then 0x9F else 0xBF) [b] bs
         else if 0xF0 \<le> byte b \<and> byte b \<le> 0xF4 then
           utf8_decode 3 (if byte b = 0xF0 then 0x90 else 0x80)
             (if byte b = 0xF4 then 0x8F else 0xBF) [b] bs
         else replacement @ utf8_decode 0 0x80 0xBF [] bs)
      else if byte b < lower \<or> upper < byte b then
        replacement @ utf8_decode 0 0x80 0xBF [] (b # bs)
      else if needed = 1 then seen @ [b] @ utf8_decode 0 0x80 0xBF [] bs
      else utf8_decode (needed - 1) 0x80 0xBF (seen @ [b]) bs)"
  by pat_completeness auto
termination
  by (relation "measure (\<lambda>(needed, lower, upper, seen, input).
                  2 * length input + (if needed = 0 then 0 else 1))") auto

definition form_decode :: "string \<Rightarrow> string" where
  "form_decode s =
     utf8_decode 0 0x80 0xBF []
       (percent_decode (map (\<lambda>c. if c = CHR ''+'' then CHR '' '' else c) s))"

definition not_eq_sign :: "char \<Rightarrow> bool" where
  "not_eq_sign c = (c \<noteq> CHR ''='')"

definition form_pair :: "string \<Rightarrow> string \<times> string" where
  "form_pair piece =
     (form_decode (takeWhile not_eq_sign piece),
      form_decode (drop 1 (dropWhile not_eq_sign piece)))"

definition URLSearchParams :: "string \<Rightarrow> (string \<times> string) list" where
  "URLSearchParams init =
     (let qs = (case init of [] \<Rightarrow> [] | c # cs \<Rightarrow> if c = CHR ''?'' then cs else init)
      in map form_pair (filter (\<lambda>piece. piece \<noteq> []) (split_on CHR ''&'' qs)))"

text \<open>\<open>for (const [key, value] of params) { query[key] = value; }\<close>\<close>

definition query_of :: "string option \<Rightarrow> (string \<rightharpoonup> string)" where
  "query_of queryString =
     (case queryString of
        None \<Rightarrow> Map.empty
      | Some qs \<Rightarrow>
          if qs = [] then Map.empty
          else foldl (\<lambda>query (key, value). js_assign query key value)
                 Map.empty (URLSearchParams qs))"

section \<open>The mock data functions\<close>

text \<open>
  \<open>./mocks/items.json\<close> is not among the sources: the dataset is a parameter, a list of
  product records with the fields the program reads (all strings) and the rest of each
  record's properties in \<open>other\<close>. The listing query of the home page (lines 678 to 689:
  the options read from the query mapping, \<open>mockGetProducts\<close> with its filter, its sort
  by \<open>localeCompare(..., "ko")\<close> and its pagination) and \<open>mockGetCategories\<close> enter as
  the functions \<open>listing\<close> (the page of products and the total) and \<open>categories\<close>.
\<close>

record item =
  productId :: string
  title :: string
  brand :: string
  image_src :: string
  lprice :: string
  category1 :: string
  category2 :: string
  other :: "(string \<times> jsval) list"

record dataset =
  items :: "item list"
  listing :: "(string \<rightharpoonup> string) \<Rightarrow> jsval list \<times> int"
  categories :: jsval

definition item_props :: "item \<Rightarrow> (string \<times> jsval) list" where
  "item_props it =
     other it @
     [(''productId'', JStr (productId it)),
      (''title'', JStr (title it)),
      (''brand'', JStr (brand it)),
      (''image'', JStr (image_src it)),
      (''lprice'', JStr (lprice it)),
      (''category1'', JStr (category1 it)),
      (''category2'', JStr (category2 it))]"

text \<open>\<open>s.replace(pat, rep)\<close> for a string pattern: the first occurrence only.\<close>

fun replace_first :: "string \<Rightarrow> string \<Rightarrow> string \<Rightarrow> string" where
  "replace_first pat rep [] = (if pat = [] then rep else [])"
| "replace_first pat rep (c # cs) =
     (if take (length pat) (c # cs) = pat then rep @ drop (length pat) (c # cs)
      else c # replace_first pat rep cs)"

text \<open>
  The fixed Korean texts of the source, as their UTF-8 bytes: the two pieces of the
  description template of \<open>mockGetProduct\<close> (after the title and after the brand) and
  the message \<open>render\<close> sends with the error action.
\<close>

definition desc_mid :: string where
  "desc_mid =
     [CHR 0xEC, CHR 0x97, CHR 0x90, CHR '' '', CHR 0xEB, CHR 0x8C, CHR 0x80, CHR 0xED,
      CHR 0x95, CHR 0x9C, CHR '' '', CHR 0xEC, CHR 0x83, CHR 0x81, CHR 0xEC, CHR 0x84,
      CHR 0xB8, CHR '' '', CHR 0xEC, CHR 0x84, CHR 0xA4, CHR 0xEB, CHR 0xAA, CHR 0x85,
      CHR 0xEC, CHR 0x9E, CHR 0x85, CHR 0xEB, CHR 0x8B, CHR 0x88, CHR 0xEB, CHR 0x8B,
      CHR 0xA4, CHR ''.'', CHR '' '']"

definition desc_end :: string where
  "desc_end =
     [CHR '' '', CHR 0xEB, CHR 0xB8, CHR 0x8C, CHR 0xEB, CHR 0x9E, CHR 0x9C, CHR 0xEB,
      CHR 0x93, CHR 0x9C, CHR 0xEC, CHR 0x9D, CHR 0x98, CHR '' '', CHR 0xEC, CHR 0x9A,
      CHR 0xB0, CHR 0xEC, CHR 0x88, CHR 0x98, CHR 0xED, CHR 0x95, CHR 0x9C, CHR '' '',
      CHR 0xED, CHR 0x92, CHR 0x88, CHR 0xEC, CHR 0xA7, CHR 0x88, CHR 0xEC, CHR 0x9D,
      CHR 0x84, CHR '' '', CHR 0xEC, CHR 0x9E, CHR 0x90, CHR 0xEB, CHR 0x9E, CHR 0x91,
      CHR 0xED, CHR 0x95, CHR 0x98, CHR 0xEB, CHR 0x8A, CHR 0x94, CHR '' '', CHR 0xEC,
      CHR 0x83, CHR 0x81, CHR 0xED, CHR 0x92, CHR 0x88, CHR 0xEC, CHR 0x9C, CHR 0xBC,
      CHR 0xEB, CHR 0xA1, CHR 0x9C, CHR '','', CHR '' '', CHR 0xEA, CHR 0xB3, CHR 0xA0,
      CHR 0xEA, CHR 0xB0, CHR 0x9D, CHR '' '', CHR 0xEB, CHR 0xA7, CHR 0x8C, CHR 0xEC,
      CHR 0xA1, CHR 0xB1, CHR 0xEB, CHR 0x8F, CHR 0x84, CHR 0xEA, CHR 0xB0, CHR 0x80,
      CHR '' '', CHR 0xEB, CHR 0x86, CHR 0x92, CHR 0xEC, CHR 0x9D, CHR 0x80, CHR '' '',
      CHR 0xEC, CHR 0xA0, CHR 0x9C, CHR 0xED, CHR 0x92, CHR 0x88, CHR 0xEC, CHR 0x9E,
      CHR 0x85, CHR 0xEB, CHR 0x8B, CHR 0x88, CHR 0xEB, CHR 0x8B, CHR 0xA4, CHR ''.'']"

definition not_found_message :: string where
  "not_found_message =
     [CHR 0xEC, CHR 0x83, CHR 0x81, CHR 0xED, CHR 0x92, CHR 0x88, CHR 0xEC, CHR 0x9D,
      CHR 0x84, CHR '' '', CHR 0xEC, CHR 0xB0, CHR 0xBE, CHR 0xEC, CHR 0x9D, CHR 0x84,
      CHR '' '', CHR 0xEC, CHR 0x88, CHR 0x98, CHR '' '', CHR 0xEC, CHR 0x97, CHR 0x86,
      CHR 0xEC, CHR 0x8A, CHR 0xB5, CHR 0xEB, CHR 0x8B, CHR 0x88, CHR 0xEB, CHR 0x8B,
      CHR 0xA4, CHR ''.'']"

text \<open>\<open>items.find((item) => item.productId === productId)\<close>\<close>

definition find_item :: "item list \<Rightarrow> jsval \<Rightarrow> item option" where
  "find_item its pid = find (\<lambda>it. JStr (productId it) = pid) its"

definition mockGetProduct :: "item list \<Rightarrow> jsval \<Rightarrow> jsval" where
  "mockGetProduct its pid =
     (case find_item its pid of
        None \<Rightarrow> JNull
      | Some product \<Rightarrow>
          JObj (item_props product @
            [(''description'', JStr (title product @ desc_mid @ brand product @ desc_end)),
             (''rating'', JNum 4),
             (''reviewCount'', JNum 500),
             (''stock'', JNum 50),
             (''images'',
                JArr [JStr (image_src product),
                      JStr (replace_first ''.jpg'' ''_2.jpg'' (image_src product)),
                      JStr (replace_first ''.jpg'' ''_3.jpg'' (image_src product))])]))"

text \<open>\<open>mockGetRelatedProducts(productId)\<close> with the default \<open>limit = 20\<close>, as \<open>render\<close> calls it.\<close>

definition mockGetRelatedProducts :: "item list \<Rightarrow> jsval \<Rightarrow> jsval list" where
  "mockGetRelatedProducts its pid =
     (case find_item its pid of
        None \<Rightarrow> []
      | Some product \<Rightarrow>
          map (\<lambda>it. JObj (item_props it))
            (take 20
               (filter (\<lambda>it. JStr (productId it) \<noteq> pid \<and> category1 it = category1 product)
                  its)))"

section \<open>The server pages\<close>

text \<open>
  Markup is a string assembled from templates and from the external components
  (\<open>ProductList\<close>, \<open>SearchBar\<close>, \<open>CartModal\<close>, \<open>Footer\<close>, \<open>Toast\<close>, \<open>Logo\<close>). It is
  represented by the template chosen and the values handed to it; what the templates and
  components do with a value they are handed is not modelled.
\<close>

datatype header = ShopTitle | DetailHeader | LogoHeader

datatype content =
    HomeContent "string list" jsval jsval jsval jsval jsval bool
  | LoadingContent
  | ErrorContent jsval
  | ProductDetail jsval jsval
  | NotFoundContent

record markup =
  headerLeft :: header
  children :: content
  cartSize :: jsval
  cart :: state
  isOpen :: jsval
  toast :: jsval

datatype head_tags = HomeHead | ProductHead jsval | ProductMissingHead | NotFoundHead

definition state_get :: "(string \<rightharpoonup> jsval) \<Rightarrow> string \<Rightarrow> jsval" where
  "state_get st k = (case st k of None \<Rightarrow> JUndefined | Some v \<Rightarrow> v)"

text \<open>\<open>v.length\<close>: the element count of an array; a TypeError on \<open>null\<close> and \<open>undefined\<close>.\<close>

fun js_length :: "jsval \<Rightarrow> error + jsval" where
  "js_length JUndefined = Inl TypeError"
| "js_length JNull = Inl TypeError"
| "js_length (JArr xs) = Inr (JNum (int (length xs)))"
| "js_length (JStr s) = Inl Unmodelled"
| "js_length v = Inr JUndefined"

definition ServerPageWrapper :: "header \<Rightarrow> content \<Rightarrow> stores \<Rightarrow> error + markup" where
  "ServerPageWrapper hl ch sts =
     (let crt = getState (cartStore sts);
          ui = getState (uiStore sts);
          cartModal = state_get ui ''cartModal''
      in case js_length (state_get crt ''items'') of
           Inl e \<Rightarrow> Inl e
         | Inr len \<Rightarrow>
             (case get_prop cartModal ''isOpen'' of
                Inl e \<Rightarrow> Inl e
              | Inr opn \<Rightarrow>
                  Inr \<lparr>headerLeft = hl, children = ch, cartSize = len, cart = crt,
                       isOpen = opn, toast = state_get ui ''toast''\<rparr>))"

text \<open>
  \<open>renderHomePage\<close>: the query's fields with their defaults, the product state's
  fields, and \<open>hasMore = products.length < totalCount\<close> (modelled for a numeric
  \<open>totalCount\<close>).
\<close>

definition query_default :: "(string \<rightharpoonup> string) \<Rightarrow> string \<Rightarrow> string \<Rightarrow> string" where
  "query_default query k d = (case query k of None \<Rightarrow> d | Some v \<Rightarrow> v)"

definition renderHomePage :: "stores \<Rightarrow> (string \<rightharpoonup> string) \<Rightarrow> error + markup" where
  "renderHomePage sts query =
     (let productState = getState (productStore sts);
          products = state_get productState ''products'';
          totalCount = state_get productState ''totalCount''
      in case js_length products of
           Inl e \<Rightarrow> Inl e
         | Inr (JNum n) \<Rightarrow>
             (case totalCount of
                JNum t \<Rightarrow>
                  ServerPageWrapper ShopTitle
                    (HomeContent
                       [query_default query ''search'' [],
                        query_default query ''limit'' ''20'',
                        query_default query ''sort'' [],
                        query_default query ''category1'' [],
                        query_default query ''category2'' []]
                       (state_get productState ''categories'')
                       products
                       (state_get productState ''loading'')
                       (state_get productState ''error'')
                       totalCount
                       (n < t))
                    sts
              | _ \<Rightarrow> Inl Unmodelled)
         | Inr _ \<Rightarrow> Inl Unmodelled)"

text \<open>
  \<open>ProductDetail({ product, relatedProducts = [] })\<close>. Its first statement destructures
  \<open>product\<close> and throws a TypeError on \<open>null\<close> and \<open>undefined\<close>. The template then calls
  \<open>reviewCount.toLocaleString()\<close> where \<open>rating > 0\<close>, \<open>stock.toLocaleString()\<close>, and
  reads \<open>relatedProducts.length\<close> and, where that is positive, a property of each of the
  first 20 related products: each of these throws a TypeError on \<open>null\<close> (the defaults
  \<open>rating = 0\<close>, \<open>reviewCount = 0\<close>, \<open>stock = 100\<close> and \<open>[]\<close> stand in for \<open>undefined\<close>
  only). A non-empty string for \<open>relatedProducts\<close> has no \<open>map\<close> after \<open>slice\<close>, which
  is a TypeError too. The comparison \<open>rating > 0\<close> is modelled for numbers, booleans,
  \<open>null\<close> and \<open>undefined\<close>, and \<open>relatedProducts\<close> for the values other than objects.
\<close>

definition nullish :: "jsval \<Rightarrow> bool" where
  "nullish v = (v = JNull \<or> v = JUndefined)"

fun rating_positive :: "jsval \<Rightarrow> error + bool" where
  "rating_positive JUndefined = Inr False"
| "rating_positive JNull = Inr False"
| "rating_positive (JBool b) = Inr b"
| "rating_positive (JNum n) = Inr (0 < n)"
| "rating_positive v = Inl Unmodelled"

fun related_cards :: "jsval \<Rightarrow> error + unit" where
  "related_cards JNull = Inl TypeError"
| "related_cards JUndefined = Inr ()"
| "related_cards (JArr xs) = (if list_ex nullish (take 20 xs) then Inl TypeError else Inr ())"
| "related_cards (JStr s) = (if s = [] then Inr () else Inl TypeError)"
| "related_cards (JObj kvs) = Inl Unmodelled"
| "related_cards v = Inr ()"

definition ProductDetail_template :: "jsval \<Rightarrow> jsval \<Rightarrow> error + content" where
  "ProductDetail_template product relatedProducts =
     (if nullish product then Inl TypeError
      else
        (case rating_positive (read_prop product ''rating'') of
           Inl e \<Rightarrow> Inl e
         | Inr positive \<Rightarrow>
             if positive \<and> read_prop product ''reviewCount'' = JNull then Inl TypeError
             else if read_prop product ''stock'' = JNull then Inl TypeError
             else (case related_cards relatedProducts of
                     Inl e \<Rightarrow> Inl e
                   | Inr u \<Rightarrow> Inr (ProductDetail product relatedProducts))))"

text \<open>
  \<open>renderProductDetailPage\<close>: \<open>relatedProducts\<close> defaults to \<open>[]\<close> where the state has
  none; the content is the loading text, the error text where \<open>error && !product\<close>, and
  otherwise \<open>ProductDetail({ product, relatedProducts })\<close>.
\<close>

definition renderProductDetailPage :: "stores \<Rightarrow> error + markup" where
  "renderProductDetailPage sts =
     (let st = getState (productStore sts);
          product = state_get st ''currentProduct'';
          relatedProducts =
            (case state_get st ''relatedProducts'' of JUndefined \<Rightarrow> JArr [] | v \<Rightarrow> v);
          err = state_get st ''error'';
          loading = state_get st ''loading''
      in case (if truthy loading then Inr LoadingContent
               else if truthy err \<and> \<not> truthy product then Inr (ErrorContent err)
               else ProductDetail_template product relatedProducts) of
           Inl e \<Rightarrow> Inl e
         | Inr ch \<Rightarrow> ServerPageWrapper DetailHeader ch sts)"

definition renderNotFoundPage :: "stores \<Rightarrow> error + markup" where
  "renderNotFoundPage sts = ServerPageWrapper LogoHeader NotFoundContent sts"

section \<open>The server renderer (render)\<close>

record render_result =
  html :: markup
  head :: head_tags
  initialData :: jsval

text \<open>The fresh store set of one call (lines 640 to 660).\<close>

definition render_stores :: stores where
  "render_stores =
     \<lparr>productStore = createServerStore
        [''products'' \<mapsto> JArr [],
         ''totalCount'' \<mapsto> JNum 0,
         ''currentProduct'' \<mapsto> JNull,
         ''relatedProducts'' \<mapsto> JArr [],
         ''loading'' \<mapsto> JBool False,
         ''error'' \<mapsto> JNull,
         ''status'' \<mapsto> JStr ''idle'',
         ''categories'' \<mapsto> JObj []],
      cartStore = createServerStore
        [''items'' \<mapsto> JArr [], ''selectedAll'' \<mapsto> JBool False],
      uiStore = createServerStore
        [''cartModal'' \<mapsto> JObj [(''isOpen'', JBool False)],
         ''globalLoading'' \<mapsto> JBool False,
         ''toast'' \<mapsto> JObj [(''isVisible'', JBool False), (''message'', JStr []),
                                  (''type'', JStr ''info'')]]\<rparr>"

text \<open>The router of one call (lines 663 to 666).\<close>

definition render_router :: "error + string route list" where
  "render_router =
     (case addRoute ''/'' ''home'' [] of
        Inl e \<Rightarrow> Inl e
      | Inr r1 \<Rightarrow>
          (case addRoute ''/product/:id/'' ''product'' r1 of
             Inl e \<Rightarrow> Inl e
           | Inr r2 \<Rightarrow> addRoute ''/404'' ''notfound'' r2))"

text \<open>
  Resolution (lines 630 to 637 and 663 to 671): the path of the matched route or
  \<open>"notfound"\<close>, the route parameters or \<open>{}\<close>, and the query mapping.
\<close>

definition render_resolve ::
  "string \<Rightarrow> error + (string \<times> (string \<rightharpoonup> jsval) \<times> (string \<rightharpoonup> string))" where
  "render_resolve url =
     (case url_parts url of
        (pathname, queryString) \<Rightarrow>
          (case render_router of
             Inl e \<Rightarrow> Inl e
           | Inr router \<Rightarrow>
               (case findRoute router pathname of
                  None \<Rightarrow> Inr (''notfound'', Map.empty, query_of queryString)
                | Some route \<Rightarrow>
                    Inr (if m_path route = [] then ''notfound'' else m_path route,
                         m_params route,
                         query_of queryString))))"

text \<open>Data prefetching (lines 673 to 732): the stores after it and \<open>initialData\<close>.\<close>

definition prefetch ::
  "product_actions \<Rightarrow> dataset \<Rightarrow> string \<Rightarrow> (string \<rightharpoonup> jsval) \<Rightarrow> (string \<rightharpoonup> string) \<Rightarrow>
     stores \<Rightarrow> error + (stores \<times> jsval)" where
  "prefetch PA db routePath params query sts =
     (if routePath = ''/'' then
        (case listing db query of
           (products, count) \<Rightarrow>
             (case dispatch PA (productStore sts)
                     \<lparr>type = SETUP PA,
                      payload = JObj [(''products'', JArr products),
                                      (''totalCount'', JNum count),
                                      (''categories'', categories db),
                                      (''loading'', JBool False),
                                      (''error'', JNull)]\<rparr> of
                Inl e \<Rightarrow> Inl e
              | Inr st \<Rightarrow>
                  Inr (sts\<lparr>productStore := st\<rparr>,
                       JObj [(''products'', JArr products),
                             (''totalCount'', JNum count),
                             (''categories'', categories db)])))
      else if routePath = ''/product/:id/'' then
        (let product = mockGetProduct (items db) (state_get params ''id'');
             relatedProducts = JArr (mockGetRelatedProducts (items db) (state_get params ''id''))
         in if truthy product then
              (case dispatch PA (productStore sts)
                      \<lparr>type = SET_CURRENT_PRODUCT PA, payload = product\<rparr> of
                 Inl e \<Rightarrow> Inl e
               | Inr st1 \<Rightarrow>
                   (case dispatch PA st1
                           \<lparr>type = SET_RELATED_PRODUCTS PA, payload = relatedProducts\<rparr> of
                      Inl e \<Rightarrow> Inl e
                    | Inr st2 \<Rightarrow>
                        Inr (sts\<lparr>productStore := st2\<rparr>,
                             JObj [(''currentProduct'', product),
                                   (''relatedProducts'', relatedProducts)])))
            else
              (case dispatch PA (productStore sts)
                      \<lparr>type = SET_ERROR PA, payload = JStr not_found_message\<rparr> of
                 Inl e \<Rightarrow> Inl e
               | Inr st \<Rightarrow> Inr (sts\<lparr>productStore := st\<rparr>, JObj [])))
      else Inr (sts, JObj []))"

text \<open>Markup (lines 735 to 743) and head tags (lines 746 to 769).\<close>

definition render_html :: "string \<Rightarrow> stores \<Rightarrow> (string \<rightharpoonup> string) \<Rightarrow> error + markup" where
  "render_html routePath sts query =
     (if routePath = ''/'' then renderHomePage sts query
      else if routePath = ''/product/:id/'' then renderProductDetailPage sts
      else renderNotFoundPage sts)"

definition render_head :: "string \<Rightarrow> stores \<Rightarrow> head_tags" where
  "render_head routePath sts =
     (if routePath = ''/'' then HomeHead
      else if routePath = ''/product/:id/'' then
        (let product = state_get (getState (productStore sts)) ''currentProduct''
         in if truthy product then ProductHead product else ProductMissingHead)
      else NotFoundHead)"

text \<open>
  \<open>render\<close> is an \<open>async\<close> function without an \<open>await\<close>: it runs to its end in one
  step, and an exception thrown on the way is the rejection (\<open>Inl\<close>) of its promise.
\<close>

definition render :: "product_actions \<Rightarrow> dataset \<Rightarrow> string \<Rightarrow> error + render_result" where
  "render PA db url =
     (case render_resolve url of
        Inl e \<Rightarrow> Inl e
      | Inr (routePath, params, query) \<Rightarrow>
          (case prefetch PA db routePath params query render_stores of
             Inl e \<Rightarrow> Inl e
           | Inr (sts, data) \<Rightarrow>
               (case render_html routePath sts query of
                  Inl e \<Rightarrow> Inl e
                | Inr page \<Rightarrow>
                    Inr \<lparr>html = page, head = render_head routePath sts, initialData = data\<rparr>)))"

section \<open>Concrete data for the instances below\<close>

text \<open>The three routes \<open>render\<close> registers, as \<open>addRoute\<close> compiles them.\<close>

definition registered :: "string route list" where
  "registered =
     [\<lparr>path = ''/'', regex = map Chr ''/'', paramNames = [], handler = ''home''\<rparr>,
      \<lparr>path = ''/product/:id/'',
       regex = map Chr ''/product/'' @ [Grp, Chr CHR ''/''],
       paramNames = [''id''], handler = ''product''\<rparr>,
      \<lparr>path = ''/404'', regex = map Chr ''/404'', paramNames = [], handler = ''notfound''\<rparr>]"

text \<open>A dataset of one product, whose listing returns that product.\<close>

definition demo_item :: item where
  "demo_item =
     \<lparr>productId = ''42'', title = ''Pen'', brand = ''Acme'', image_src = ''pen.jpg'',
      lprice = ''1500'', category1 = ''office'', category2 = ''writing'', other = []\<rparr>"

definition demo_db :: dataset where
  "demo_db =
     \<lparr>items = [demo_item],
      listing = (\<lambda>query. ([JObj (item_props demo_item)], 1)),
      categories = JObj [(''office'', JObj [(''writing'', JObj [])])]\<rparr>"

text \<open>
  A client whose product store reduces as the server store does, started on the payload
  the server emits for the home page of \<open>demo_db\<close>.
\<close>

definition store_reducer :: "product_actions \<Rightarrow> state \<Rightarrow> action \<Rightarrow> state" where
  "store_reducer PA st a = (case dispatch PA st a of Inl e \<Rightarrow> st | Inr st' \<Rightarrow> st')"

definition demo_client :: client where
  "demo_client =
     \<lparr>productStore = productStore render_stores,
      cartStore = cartStore render_stores,
      uiStore = uiStore render_stores,
      window = Some [''__INITIAL_DATA__'' \<mapsto>
                       JObj [(''products'', JArr [JObj (item_props demo_item)]),
                             (''totalCount'', JNum 1),
                             (''categories'', categories demo_db)]]\<rparr>"

section \<open>The store: unhandled kinds and the shallow merge\<close>

text \<open>
  Claim C5. For every state and every action whose kind is none of the kinds the server
  store's \<open>switch\<close> handles (SET_PRODUCTS, SET_CATEGORIES, SET_CURRENT_PRODUCT,
  SET_RELATED_PRODUCTS, SETUP), \<open>dispatch\<close> returns normally and the state after it is the
  state before it.
\<close>

theorem dispatch_unhandled_kind:
  "type a \<notin> {SET_PRODUCTS PA, SET_CATEGORIES PA, SET_CURRENT_PRODUCT PA,
               SET_RELATED_PRODUCTS PA, SETUP PA} \<Longrightarrow>
   dispatch PA st a = Inr st"
  by (simp add: dispatch_def)

theorem dispatch_unhandled_kind_witness:
  "dispatch PRODUCT_ACTIONS (productStore render_stores)
     \<lparr>type = ''products/setError'', payload = JStr ''gone''\<rparr> =
   Inr (productStore render_stores)"
  using dispatch_unhandled_kind
          [of "\<lparr>type = ''products/setError'', payload = JStr ''gone''\<rparr>" PRODUCT_ACTIONS
              "productStore render_stores"]
  by (simp add: PRODUCT_ACTIONS_def)

lemma lookup_prop_in: "k \<in> fst ` set p \<Longrightarrow> map_of (rev p) k = Some (lookup_prop p k)"
  by (cases "map_of (rev p) k") (simp_all add: lookup_prop_def map_of_eq_None_iff)

lemma spread_merge_obj:
  "spread_merge st (JObj p) k = (if k \<in> fst ` set p then Some (lookup_prop p k) else st k)"
proof (cases "k \<in> fst ` set p")
  case True
  then show ?thesis by (simp add: spread_merge_def map_add_def lookup_prop_in)
next
  case False
  then have "map_of (rev p) k = None" by (simp add: map_of_eq_None_iff)
  with False show ?thesis by (simp add: spread_merge_def map_add_def)
qed

lemma truthy_products_data:
  "truthy (read_prop data k) \<Longrightarrow> truthy data"
  by (cases data) simp_all

lemma truthy_window: "truthy (initial_data c) \<Longrightarrow> \<exists>w. window c = Some w"
  by (cases "window c") (simp_all add: initial_data_def)

lemma hydrate_home:
  assumes "truthy (read_prop (initial_data c) ''products'')"
    and "\<not> truthy (read_prop (initial_data c) ''currentProduct'')"
  shows "\<exists>w. window c = Some w \<and>
     hydrateInitialData reducer PA c =
       c\<lparr>productStore := reducer (productStore c)
            \<lparr>type = SETUP PA, payload = setup_payload (initial_data c)\<rparr>,
         window := Some (w(''__INITIAL_DATA__'' := None))\<rparr>"
proof -
  have t: "truthy (initial_data c)" using assms(1) by (rule truthy_products_data)
  then obtain w where w: "window c = Some w" using truthy_window by blast
  show ?thesis
    using assms t w by (simp add: hydrateInitialData_def Let_def store_dispatch_def)
qed

text \<open>
  Claim C10. A SETUP action with an object payload is a shallow merge in the server store:
  every field the payload names takes the payload's value and every other field of the
  state keeps its value. So hydrating a home-page payload (\<open>products\<close> set, no
  \<open>currentProduct\<close>) into a client product store that treats SETUP as the server store
  does writes \<open>products\<close>, \<open>totalCount\<close> and \<open>categories\<close> and leaves \<open>currentProduct\<close>,
  \<open>relatedProducts\<close>, the cart store and the ui store as they were. The kind SETUP must
  differ from the four kinds whose cases come first in the \<open>switch\<close>.
\<close>

theorem SETUP_shallow_merge:
  assumes "SETUP PA \<notin> {SET_PRODUCTS PA, SET_CATEGORIES PA, SET_CURRENT_PRODUCT PA,
                       SET_RELATED_PRODUCTS PA}"
  shows "(\<exists>st'. dispatch PA st \<lparr>type = SETUP PA, payload = JObj p\<rparr> = Inr st' \<and>
            (\<forall>k. st' k = (if k \<in> fst ` set p then Some (lookup_prop p k) else st k)))
       \<and> (truthy (read_prop (initial_data c) ''products'')
            \<and> \<not> truthy (read_prop (initial_data c) ''currentProduct'')
            \<and> (\<forall>s a. type a = SETUP PA \<longrightarrow> dispatch PA s a = Inr (reducer s a))
          \<longrightarrow> productStore (hydrateInitialData reducer PA c) ''products'' =
                Some (read_prop (initial_data c) ''products'')
            \<and> productStore (hydrateInitialData reducer PA c) ''totalCount'' =
                Some (read_prop (initial_data c) ''totalCount'')
            \<and> productStore (hydrateInitialData reducer PA c) ''categories'' =
                Some (js_or (read_prop (initial_data c) ''categories'') (JObj []))
            \<and> productStore (hydrateInitialData reducer PA c) ''currentProduct'' =
                productStore c ''currentProduct''
            \<and> productStore (hydrateInitialData reducer PA c) ''relatedProducts'' =
                productStore c ''relatedProducts''
            \<and> cartStore (hydrateInitialData reducer PA c) = cartStore c
            \<and> uiStore (hydrateInitialData reducer PA c) = uiStore c)"
proof (intro conjI impI)
  have d: "dispatch PA st \<lparr>type = SETUP PA, payload = JObj p\<rparr> = Inr (spread_merge st (JObj p))"
    using assms by (auto simp: dispatch_def)
  show "\<exists>st'. dispatch PA st \<lparr>type = SETUP PA, payload = JObj p\<rparr> = Inr st' \<and>
            (\<forall>k. st' k = (if k \<in> fst ` set p then Some (lookup_prop p k) else st k))"
    unfolding d by (intro exI[of _ "spread_merge st (JObj p)"] conjI allI refl spread_merge_obj)
next
  assume h: "truthy (read_prop (initial_data c) ''products'')
        \<and> \<not> truthy (read_prop (initial_data c) ''currentProduct'')
        \<and> (\<forall>s a. type a = SETUP PA \<longrightarrow> dispatch PA s a = Inr (reducer s a))"
  let ?a = "\<lparr>type = SETUP PA, payload = setup_payload (initial_data c)\<rparr>"
  have "dispatch PA (productStore c) ?a = Inr (reducer (productStore c) ?a)"
    using h by simp
  moreover have "dispatch PA (productStore c) ?a =
      Inr (spread_merge (productStore c) (setup_payload (initial_data c)))"
    using assms by (auto simp: dispatch_def)
  ultimately have r: "reducer (productStore c) ?a =
      spread_merge (productStore c) (setup_payload (initial_data c))"
    by simp
  from h obtain w where hy: "hydrateInitialData reducer PA c =
       c\<lparr>productStore := reducer (productStore c) ?a,
         window := Some (w(''__INITIAL_DATA__'' := None))\<rparr>"
    using hydrate_home[of c reducer PA] by blast
  have ps: "productStore (hydrateInitialData reducer PA c) k =
      spread_merge (productStore c) (setup_payload (initial_data c)) k" for k
    by (simp add: hy r)
  show "productStore (hydrateInitialData reducer PA c) ''products'' =
          Some (read_prop (initial_data c) ''products'')"
    by (simp add: ps setup_payload_def spread_merge_obj lookup_prop_def)
  show "productStore (hydrateInitialData reducer PA c) ''totalCount'' =
          Some (read_prop (initial_data c) ''totalCount'')"
    by (simp add: ps setup_payload_def spread_merge_obj lookup_prop_def)
  show "productStore (hydrateInitialData reducer PA c) ''categories'' =
          Some (js_or (read_prop (initial_data c) ''categories'') (JObj []))"
    by (simp add: ps setup_payload_def spread_merge_obj lookup_prop_def)
  show "productStore (hydrateInitialData reducer PA c) ''currentProduct'' =
          productStore c ''currentProduct''"
    by (simp add: ps setup_payload_def spread_merge_obj)
  show "productStore (hydrateInitialData reducer PA c) ''relatedProducts'' =
          productStore c ''relatedProducts''"
    by (simp add: ps setup_payload_def spread_merge_obj)
  show "cartStore (hydrateInitialData reducer PA c) = cartStore c"
    by (simp add: hy)
  show "uiStore (hydrateInitialData reducer PA c) = uiStore c"
    by (simp add: hy)
qed

lemma demo_initial_data:
  "initial_data demo_client =
     JObj [(''products'', JArr [JObj (item_props demo_item)]),
           (''totalCount'', JNum 1),
           (''categories'', categories demo_db)]"
  by (simp add: initial_data_def demo_client_def)

lemma store_reducer_SETUP:
  "type a = SETUP PRODUCT_ACTIONS \<Longrightarrow>
   dispatch PRODUCT_ACTIONS s a = Inr (store_reducer PRODUCT_ACTIONS s a)"
  by (simp add: store_reducer_def dispatch_def PRODUCT_ACTIONS_def)

theorem SETUP_shallow_merge_witness:
  "(\<exists>st'. dispatch PRODUCT_ACTIONS (productStore render_stores)
            \<lparr>type = SETUP PRODUCT_ACTIONS, payload = JObj [(''totalCount'', JNum 7)]\<rparr> = Inr st'
         \<and> st' ''totalCount'' = Some (JNum 7)
         \<and> st' ''currentProduct'' = Some JNull)
   \<and> productStore (hydrateInitialData (store_reducer PRODUCT_ACTIONS) PRODUCT_ACTIONS demo_client)
        ''totalCount'' = Some (JNum 1)
   \<and> productStore (hydrateInitialData (store_reducer PRODUCT_ACTIONS) PRODUCT_ACTIONS demo_client)
        ''currentProduct'' = Some JNull
   \<and> productStore (hydrateInitialData (store_reducer PRODUCT_ACTIONS) PRODUCT_ACTIONS demo_client)
        ''relatedProducts'' = Some (JArr [])
   \<and> cartStore (hydrateInitialData (store_reducer PRODUCT_ACTIONS) PRODUCT_ACTIONS demo_client) =
        cartStore render_stores
   \<and> uiStore (hydrateInitialData (store_reducer PRODUCT_ACTIONS) PRODUCT_ACTIONS demo_client) =
        uiStore render_stores"
proof -
  have k: "SETUP PRODUCT_ACTIONS \<notin> {SET_PRODUCTS PRODUCT_ACTIONS, SET_CATEGORIES PRODUCT_ACTIONS,
            SET_CURRENT_PRODUCT PRODUCT_ACTIONS, SET_RELATED_PRODUCTS PRODUCT_ACTIONS}"
    by (simp add: PRODUCT_ACTIONS_def)
  have h: "truthy (read_prop (initial_data demo_client) ''products'')
        \<and> \<not> truthy (read_prop (initial_data demo_client) ''currentProduct'')
        \<and> (\<forall>s a. type a = SETUP PRODUCT_ACTIONS \<longrightarrow>
              dispatch PRODUCT_ACTIONS s a = Inr (store_reducer PRODUCT_ACTIONS s a))"
    by (simp add: demo_initial_data lookup_prop_def store_reducer_SETUP)
  have s: "productStore demo_client = productStore render_stores"
          "cartStore demo_client = cartStore render_stores"
          "uiStore demo_client = uiStore render_stores"
    by (simp_all add: demo_client_def)
  have v: "productStore render_stores ''currentProduct'' = Some JNull"
          "productStore render_stores ''relatedProducts'' = Some (JArr [])"
    by (simp_all add: render_stores_def createServerStore_def)
  from SETUP_shallow_merge
         [OF k, of "productStore render_stores" "[(''totalCount'', JNum 7)]" demo_client
            "store_reducer PRODUCT_ACTIONS"] h
  show ?thesis
    by (simp add: demo_initial_data lookup_prop_def s v)
qed

section \<open>The hydration bridge runs once\<close>

lemma initial_data_after:
  "window c = Some w \<Longrightarrow> truthy (initial_data c) \<Longrightarrow>
   initial_data (hydrateInitialData reducer PA c) = JUndefined"
  by (simp add: hydrateInitialData_def Let_def initial_data_def store_dispatch_def)

lemma hydrate_absent:
  "\<not> truthy (initial_data c) \<Longrightarrow> hydrateInitialData reducer PA c = c"
  by (simp add: hydrateInitialData_def Let_def split: option.splits)

lemma hydrate_stores:
  assumes "window c = Some w" "truthy (initial_data c)"
  shows "productStore (hydrateInitialData reducer PA c) =
     (let data = initial_data c;
          st1 = (if truthy (read_prop data ''products'')
                 then reducer (productStore c)
                        \<lparr>type = SETUP PA,
                         payload = JObj [(''products'', read_prop data ''products''),
                                         (''totalCount'', read_prop data ''totalCount''),
                                         (''categories'',
                                            js_or (read_prop data ''categories'') (JObj [])),
                                         (''loading'', JBool False),
                                         (''error'', JNull)]\<rparr>
                 else productStore c)
      in if truthy (read_prop data ''currentProduct'')
         then (let st2 = reducer st1 \<lparr>type = SET_CURRENT_PRODUCT PA,
                                      payload = read_prop data ''currentProduct''\<rparr>
               in if truthy (read_prop data ''relatedProducts'')
                  then reducer st2 \<lparr>type = SET_RELATED_PRODUCTS PA,
                                    payload = read_prop data ''relatedProducts''\<rparr>
                  else st2)
         else st1)"
    and "cartStore (hydrateInitialData reducer PA c) = cartStore c"
    and "uiStore (hydrateInitialData reducer PA c) = uiStore c"
  using assms
  by (simp_all add: hydrateInitialData_def Let_def store_dispatch_def setup_payload_def)

text \<open>
  Claim C1. Calling \<open>hydrateInitialData\<close> twice leaves the client, its product store
  included, as one call leaves it. A first call that finds a payload dispatches into the
  product store (a SETUP action with the listing fields where the payload has
  \<open>products\<close>, then the current product and, with it, the related products where the
  payload has them), leaves the cart and ui stores alone and removes the payload from
  \<open>window.__INITIAL_DATA__\<close>; a call that finds no payload changes nothing, so the second
  call changes nothing.
\<close>

theorem hydrateInitialData_twice:
  "hydrateInitialData reducer PA (hydrateInitialData reducer PA c) =
     hydrateInitialData reducer PA c
   \<and> productStore (hydrateInitialData reducer PA (hydrateInitialData reducer PA c)) =
       productStore (hydrateInitialData reducer PA c)
   \<and> (truthy (initial_data c) \<longrightarrow>
        initial_data (hydrateInitialData reducer PA c) = JUndefined
        \<and> productStore (hydrateInitialData reducer PA c) =
            (let data = initial_data c;
                 st1 = (if truthy (read_prop data ''products'')
                        then reducer (productStore c)
                               \<lparr>type = SETUP PA,
                                payload = JObj [(''products'', read_prop data ''products''),
                                                (''totalCount'', read_prop data ''totalCount''),
                                                (''categories'',
                                                   js_or (read_prop data ''categories'') (JObj [])),
                                                (''loading'', JBool False),
                                                (''error'', JNull)]\<rparr>
                        else productStore c)
             in if truthy (read_prop data ''currentProduct'')
                then (let st2 = reducer st1 \<lparr>type = SET_CURRENT_PRODUCT PA,
                                             payload = read_prop data ''currentProduct''\<rparr>
                      in if truthy (read_prop data ''relatedProducts'')
                         then reducer st2 \<lparr>type = SET_RELATED_PRODUCTS PA,
                                           payload = read_prop data ''relatedProducts''\<rparr>
                         else st2)
                else st1)
        \<and> cartStore (hydrateInitialData reducer PA c) = cartStore c
        \<and> uiStore (hydrateInitialData reducer PA c) = uiStore c)
   \<and> (\<not> truthy (initial_data c) \<longrightarrow> hydrateInitialData reducer PA c = c)"
proof -
  have a: "truthy (initial_data c) \<longrightarrow>
           initial_data (hydrateInitialData reducer PA c) = JUndefined"
    using truthy_window initial_data_after by blast
  have b: "\<not> truthy (initial_data c) \<longrightarrow> hydrateInitialData reducer PA c = c"
    by (simp add: hydrate_absent)
  have "\<not> truthy (initial_data (hydrateInitialData reducer PA c))"
  proof (cases "truthy (initial_data c)")
    case True
    then show ?thesis using a by simp
  next
    case False
    then show ?thesis using b by simp
  qed
  then have i: "hydrateInitialData reducer PA (hydrateInitialData reducer PA c) =
             hydrateInitialData reducer PA c"
    by (rule hydrate_absent)
  then have p: "productStore (hydrateInitialData reducer PA (hydrateInitialData reducer PA c)) =
       productStore (hydrateInitialData reducer PA c)"
    by simp
  have s: "truthy (initial_data c) \<longrightarrow>
        productStore (hydrateInitialData reducer PA c) =
            (let data = initial_data c;
                 st1 = (if truthy (read_prop data ''products'')
                        then reducer (productStore c)
                               \<lparr>type = SETUP PA,
                                payload = JObj [(''products'', read_prop data ''products''),
                                                (''totalCount'', read_prop data ''totalCount''),
                                                (''categories'',
                                                   js_or (read_prop data ''categories'') (JObj [])),
                                                (''loading'', JBool False),
                                                (''error'', JNull)]\<rparr>
                        else productStore c)
             in if truthy (read_prop data ''currentProduct'')
                then (let st2 = reducer st1 \<lparr>type = SET_CURRENT_PRODUCT PA,
                                             payload = read_prop data ''currentProduct''\<rparr>
                      in if truthy (read_prop data ''relatedProducts'')
                         then reducer st2 \<lparr>type = SET_RELATED_PRODUCTS PA,
                                           payload = read_prop data ''relatedProducts''\<rparr>
                         else st2)
                else st1)
        \<and> cartStore (hydrateInitialData reducer PA c) = cartStore c
        \<and> uiStore (hydrateInitialData reducer PA c) = uiStore c"
    using truthy_window[of c] hydrate_stores[of c _ reducer PA] by blast
  from i p a s b show ?thesis by blast
qed

theorem hydrateInitialData_twice_witness:
  "truthy (initial_data demo_client)
   \<and> productStore demo_client ''products'' = Some (JArr [])
   \<and> productStore demo_client ''totalCount'' = Some (JNum 0)
   \<and> productStore (hydrateInitialData (store_reducer PRODUCT_ACTIONS) PRODUCT_ACTIONS demo_client)
       ''products'' = Some (JArr [JObj (item_props demo_item)])
   \<and> productStore (hydrateInitialData (store_reducer PRODUCT_ACTIONS) PRODUCT_ACTIONS demo_client)
       ''totalCount'' = Some (JNum 1)
   \<and> initial_data (hydrateInitialData (store_reducer PRODUCT_ACTIONS) PRODUCT_ACTIONS demo_client)
       = JUndefined
   \<and> hydrateInitialData (store_reducer PRODUCT_ACTIONS) PRODUCT_ACTIONS
       (hydrateInitialData (store_reducer PRODUCT_ACTIONS) PRODUCT_ACTIONS demo_client) =
     hydrateInitialData (store_reducer PRODUCT_ACTIONS) PRODUCT_ACTIONS demo_client
   \<and> productStore (hydrateInitialData (store_reducer PRODUCT_ACTIONS) PRODUCT_ACTIONS
       (hydrateInitialData (store_reducer PRODUCT_ACTIONS) PRODUCT_ACTIONS demo_client))
       ''products'' = Some (JArr [JObj (item_props demo_item)])"
proof -
  have t: "truthy (initial_data demo_client)"
    by (simp add: demo_initial_data)
  have v: "productStore demo_client ''products'' = Some (JArr [])"
          "productStore demo_client ''totalCount'' = Some (JNum 0)"
    by (simp_all add: demo_client_def render_stores_def createServerStore_def)
  note h = hydrateInitialData_twice [of "store_reducer PRODUCT_ACTIONS" PRODUCT_ACTIONS demo_client]
  from h t have st: "productStore
        (hydrateInitialData (store_reducer PRODUCT_ACTIONS) PRODUCT_ACTIONS demo_client) =
      store_reducer PRODUCT_ACTIONS (productStore demo_client)
        \<lparr>type = SETUP PRODUCT_ACTIONS,
         payload = JObj [(''products'', JArr [JObj (item_props demo_item)]),
                         (''totalCount'', JNum 1),
                         (''categories'', categories demo_db),
                         (''loading'', JBool False),
                         (''error'', JNull)]\<rparr>"
    by (simp add: demo_initial_data lookup_prop_def js_or_def demo_db_def)
  have m: "store_reducer PRODUCT_ACTIONS (productStore demo_client)
        \<lparr>type = SETUP PRODUCT_ACTIONS,
         payload = JObj [(''products'', JArr [JObj (item_props demo_item)]),
                         (''totalCount'', JNum 1),
                         (''categories'', categories demo_db),
                         (''loading'', JBool False),
                         (''error'', JNull)]\<rparr> k =
      spread_merge (productStore demo_client)
        (JObj [(''products'', JArr [JObj (item_props demo_item)]),
               (''totalCount'', JNum 1),
               (''categories'', categories demo_db),
               (''loading'', JBool False),
               (''error'', JNull)]) k" for k
    by (simp add: store_reducer_def dispatch_def PRODUCT_ACTIONS_def)
  have p1: "productStore
        (hydrateInitialData (store_reducer PRODUCT_ACTIONS) PRODUCT_ACTIONS demo_client)
        ''products'' = Some (JArr [JObj (item_props demo_item)])"
    by (simp add: st m spread_merge_obj lookup_prop_def)
  have p2: "productStore
        (hydrateInitialData (store_reducer PRODUCT_ACTIONS) PRODUCT_ACTIONS demo_client)
        ''totalCount'' = Some (JNum 1)"
    by (simp add: st m spread_merge_obj lookup_prop_def)
  from h t have i: "initial_data
        (hydrateInitialData (store_reducer PRODUCT_ACTIONS) PRODUCT_ACTIONS demo_client)
       = JUndefined"
    by blast
  from h have e: "hydrateInitialData (store_reducer PRODUCT_ACTIONS) PRODUCT_ACTIONS
       (hydrateInitialData (store_reducer PRODUCT_ACTIONS) PRODUCT_ACTIONS demo_client) =
     hydrateInitialData (store_reducer PRODUCT_ACTIONS) PRODUCT_ACTIONS demo_client"
    by blast
  from t v p1 p2 i e show ?thesis by simp
qed

section \<open>Registration: what addRoute compiles\<close>

lemma new_RegExp_anchored: "new_RegExp (CHR ''^'' # body @ [CHR ''$'']) = RegExp_body body"
  by (simp add: new_RegExp_def)

lemma RegExp_body_group:
  "RegExp_body (CHR ''('' # CHR ''['' # CHR ''^'' # CHR ''/'' # CHR '']'' # CHR ''+'' # CHR '')'' # r) =
    (case RegExp_body r of Inl e \<Rightarrow> Inl e | Inr ts \<Rightarrow> Inr (Grp # ts))"
  by simp

lemma RegExp_body_plain:
  "\<not> syntax_char c \<Longrightarrow> RegExp_body (c # r) =
     (case RegExp_body r of Inl e \<Rightarrow> Inl e | Inr ts \<Rightarrow> Inr (Chr c # ts))"
  by (auto simp: syntax_char_def)

lemma replace_params_param:
  "takeWhile not_slash cs \<noteq> [] \<Longrightarrow>
   replace_params (CHR '':'' # cs) =
     (''([^/]+)'' @ fst (replace_params (dropWhile not_slash cs)),
      takeWhile not_slash cs # snd (replace_params (dropWhile not_slash cs)))"
  by (simp add: split_beta)

lemma replace_params_lit:
  "\<not> (c = CHR '':'' \<and> takeWhile not_slash cs \<noteq> []) \<Longrightarrow>
   replace_params (c # cs) = (c # fst (replace_params cs), snd (replace_params cs))"
  by (simp add: split_beta)

lemma replace_params_regex:
  "list_all (\<lambda>c. \<not> syntax_char c) p \<Longrightarrow>
   \<exists>ts. RegExp_body (fst (replace_params p)) = Inr ts \<and> Bar \<notin> set ts"
proof (induction p rule: replace_params.induct)
  case 1
  then show ?case by simp
next
  case (2 c cs)
  show ?case
  proof (cases "c = CHR '':'' \<and> takeWhile not_slash cs \<noteq> []")
    case True
    have "list_all (\<lambda>c. \<not> syntax_char c) (dropWhile not_slash cs)"
      using "2.prems" by (auto simp: list_all_iff dest: set_dropWhileD)
    with "2.IH"(1) True
    obtain ts where "RegExp_body (fst (replace_params (dropWhile not_slash cs))) = Inr ts"
      and "Bar \<notin> set ts"
      by blast
    with True show ?thesis
      by (simp add: replace_params_param RegExp_body_group
            del: RegExp_body.simps replace_params.simps)
  next
    case False
    have "list_all (\<lambda>c. \<not> syntax_char c) cs" and nc: "\<not> syntax_char c"
      using "2.prems" by simp_all
    with "2.IH"(2) False obtain ts where "RegExp_body (fst (replace_params cs)) = Inr ts"
      and "Bar \<notin> set ts"
      by blast
    then show ?thesis
      using nc by (simp add: replace_params_lit[OF False] RegExp_body_plain
            del: RegExp_body.simps replace_params.simps)
  qed
qed

lemma replace_params_none: "snd (replace_params p) = [] \<Longrightarrow> fst (replace_params p) = p"
proof (induction p rule: replace_params.induct)
  case 1
  then show ?case by simp
next
  case (2 c cs)
  show ?case
  proof (cases "c = CHR '':'' \<and> takeWhile not_slash cs \<noteq> []")
    case True
    with "2.prems" show ?thesis by (simp add: replace_params_param del: replace_params.simps)
  next
    case False
    with "2.prems" "2.IH"(2) show ?thesis
      by (simp add: replace_params_lit[OF False] del: replace_params.simps)
  qed
qed

lemma RegExp_body_literal:
  "list_all (\<lambda>c. \<not> syntax_char c) p \<Longrightarrow> RegExp_body p = Inr (map Chr p)"
  by (induction p) (auto simp: syntax_char_def)

lemma split_alts_no_bar: "Bar \<notin> set ts \<Longrightarrow> split_alts ts = [ts]"
  by (induction ts) auto

lemma search_not_at_start: "search [a] False s = None"
  by (induction s) auto

lemma rx_match_no_bar:
  "Bar \<notin> set ts \<Longrightarrow> rx_match ts s = map_option (map JStr) (seq_match True ts s)"
  by (cases s)
     (auto simp: rx_match_def split_alts_no_bar search_not_at_start split: option.splits)

lemma seq_match_literal: "seq_match True (map Chr p) s = (if s = p then Some [] else None)"
  by (induction p arbitrary: s) (auto split: list.splits)

lemma rx_match_literal: "rx_match (map Chr p) s = (if s = p then Some [] else None)"
proof -
  have "Bar \<notin> set (map Chr p)" by auto
  then show ?thesis by (simp add: rx_match_no_bar seq_match_literal)
qed

lemma render_router_eq: "render_router = Inr registered"
  by code_simp

section \<open>Matching: the trailing separator\<close>

lemma replace_params_last:
  "p \<noteq> [] \<Longrightarrow> last p = CHR ''/'' \<Longrightarrow>
   fst (replace_params p) \<noteq> [] \<and> last (fst (replace_params p)) = CHR ''/''"
proof (induction p rule: replace_params.induct)
  case 1
  then show ?case by simp
next
  case (2 c cs)
  show ?case
  proof (cases "c = CHR '':'' \<and> takeWhile not_slash cs \<noteq> []")
    case True
    then have cs: "cs \<noteq> []" by auto
    with "2.prems" have lcs: "last cs = CHR ''/''" by simp
    have "\<not> not_slash (last cs)" using lcs by (simp add: not_slash_def)
    then have ne: "dropWhile not_slash cs \<noteq> []"
      using cs last_in_set[of cs] by (auto simp: dropWhile_eq_Nil_conv)
    have "last (takeWhile not_slash cs @ dropWhile not_slash cs) = last (dropWhile not_slash cs)"
      using ne by (rule last_appendR)
    then have "last (dropWhile not_slash cs) = CHR ''/''"
      using lcs by simp
    with "2.IH"(1) True ne
    have "fst (replace_params (dropWhile not_slash cs)) \<noteq> []
          \<and> last (fst (replace_params (dropWhile not_slash cs))) = CHR ''/''"
      by blast
    with True show ?thesis
      by (simp add: replace_params_param del: replace_params.simps)
  next
    case False
    show ?thesis
    proof (cases "cs = []")
      case True
      with "2.prems" show ?thesis by simp
    next
      case ne: False
      with "2.prems" have "last cs = CHR ''/''" by simp
      with "2.IH"(2) False ne
      have "fst (replace_params cs) \<noteq> [] \<and> last (fst (replace_params cs)) = CHR ''/''"
        by blast
      then show ?thesis
        by (simp add: replace_params_lit[OF False] del: replace_params.simps)
    qed
  qed
qed

lemma RegExp_body_last:
  "RegExp_body r = Inr ts \<Longrightarrow> r \<noteq> [] \<Longrightarrow> last r = CHR ''/'' \<Longrightarrow>
   ts \<noteq> [] \<and> last ts = Chr CHR ''/''"
proof (induction r arbitrary: ts rule: RegExp_body.induct)
  case 1
  then show ?case by simp
next
  case (2 c cs)
  show ?case
  proof (cases "c = CHR ''('' \<and> take 6 cs = ''[^/]+)''")
    case True
    then have cs: "cs = ''[^/]+)'' @ drop 6 cs"
      by (metis append_take_drop_id)
    from "2.prems"(1) True obtain ts' where
      ts': "RegExp_body (drop 6 cs) = Inr ts'" and ts: "ts = Grp # ts'"
      by (auto split: sum.splits)
    have ne: "drop 6 cs \<noteq> []"
    proof
      assume "drop 6 cs = []"
      with cs have "cs = ''[^/]+)''" by simp
      with "2.prems"(3) show False by simp
    qed
    have "last (c # take 6 cs @ drop 6 cs) = last (drop 6 cs)"
      using ne by (simp del: append_take_drop_id)
    then have "last (drop 6 cs) = CHR ''/''"
      using "2.prems"(3) by simp
    with "2.IH"(1)[OF True ts' ne] ts show ?thesis by simp
  next
    case False
    show ?thesis
    proof (cases "c = CHR ''|''")
      case bar: True
      from "2.prems"(1) False bar obtain ts' where
        ts': "RegExp_body cs = Inr ts'" and ts: "ts = Bar # ts'"
        by (auto split: sum.splits)
      from "2.prems"(3) bar have ne: "cs \<noteq> []" by auto
      with "2.prems"(3) have "last cs = CHR ''/''" by simp
      with "2.IH"(2)[OF False bar ts' ne] ts show ?thesis by simp
    next
      case nobar: False
      with "2.prems"(1) False have nsc: "\<not> syntax_char c"
        by (auto split: if_splits)
      from "2.prems"(1) False nobar nsc obtain ts' where
        ts': "RegExp_body cs = Inr ts'" and ts: "ts = Chr c # ts'"
        by (auto split: sum.splits if_splits)
      show ?thesis
      proof (cases "cs = []")
        case True
        with ts' ts "2.prems"(3) show ?thesis by simp
      next
        case ne: False
        with "2.prems"(3) have "last cs = CHR ''/''" by simp
        with "2.IH"(3)[OF False nobar nsc ts' ne] ts show ?thesis by simp
      qed
    qed
  qed
qed

lemma grp_try_Some:
  "grp_try k s n = Some caps \<Longrightarrow>
   \<exists>m caps'. 0 < m \<and> m \<le> n \<and> k (drop m s) = Some caps' \<and> caps = take m s # caps'"
proof (induction n)
  case 0
  then show ?case by simp
next
  case (Suc n)
  show ?case
  proof (cases "k (drop (Suc n) s)")
    case None
    with Suc.prems have "grp_try k s n = Some caps" by simp
    from Suc.IH[OF this] obtain m caps' where
      "0 < m" "m \<le> n" "k (drop m s) = Some caps'" "caps = take m s # caps'"
      by blast
    then have "0 < m \<and> m \<le> Suc n \<and> k (drop m s) = Some caps' \<and> caps = take m s # caps'"
      by simp
    then show ?thesis by blast
  next
    case (Some a)
    with Suc.prems have "caps = take (Suc n) s # a" by simp
    with Some show ?thesis by blast
  qed
qed

lemma seq_match_last:
  "seq_match True ts s = Some caps \<Longrightarrow> ts \<noteq> [] \<Longrightarrow> last ts = Chr CHR ''/'' \<Longrightarrow>
   s \<noteq> [] \<and> last s = CHR ''/''"
proof (induction ts arbitrary: s caps)
  case Nil
  then show ?case by simp
next
  case (Cons t ts)
  show ?case
  proof (cases t)
    case (Chr c)
    with Cons.prems(1) obtain xs where s: "s = c # xs" and m: "seq_match True ts xs = Some caps"
      by (auto split: list.splits if_splits)
    show ?thesis
    proof (cases "ts = []")
      case True
      with Cons.prems(3) Chr m s show ?thesis by (simp split: if_splits)
    next
      case False
      with Cons.prems(3) have "last ts = Chr CHR ''/''" by simp
      from Cons.IH[OF m False this] s show ?thesis by simp
    qed
  next
    case Bar
    with Cons.prems(1) show ?thesis by simp
  next
    case Grp
    with Cons.prems(3) have ne: "ts \<noteq> []" by auto
    with Cons.prems(3) have l: "last ts = Chr CHR ''/''" by simp
    from Cons.prems(1) Grp obtain m caps' where
      m: "seq_match True ts (drop m s) = Some caps'"
      by (auto dest: grp_try_Some)
    from Cons.IH[OF m ne l] have d: "drop m s \<noteq> []" and e: "last (drop m s) = CHR ''/''"
      by simp_all
    from d have "m < length s" by simp
    then have "last (drop m s) = last s" by (rule last_drop)
    with d e show ?thesis by auto
  qed
qed

lemma rx_match_last:
  assumes "Bar \<notin> set ts" "rx_match ts s = Some caps" "ts \<noteq> []" "last ts = Chr CHR ''/''"
  shows "s \<noteq> [] \<and> last s = CHR ''/''"
proof -
  from assms(1,2) obtain caps' where "seq_match True ts s = Some caps'"
    by (auto simp: rx_match_no_bar)
  then show ?thesis using assms(3,4) by (rule seq_match_last)
qed

lemma addRoute_regex:
  assumes "addRoute p h routes = Inr routes'"
  shows "RegExp_body (fst (replace_params p)) = Inr (regex (last routes'))"
  using assms
  by (auto simp: addRoute_def split_beta new_RegExp_anchored split: sum.splits
           simp del: replace_params.simps)

section \<open>The request URL\<close>

lemma split_on_first: "\<exists>ps. split_on sep s = takeWhile (\<lambda>c. c \<noteq> sep) s # ps"
  by (induction s) (auto split: list.splits)

lemma split_on_absent: "sep \<notin> set s \<Longrightarrow> split_on sep s = [s]"
  by (induction s) auto

lemma split_on_append: "sep \<notin> set p \<Longrightarrow> split_on sep (p @ sep # q) = p # split_on sep q"
  by (induction p) auto

lemma path_of_takeWhile: "path_of url = takeWhile (\<lambda>c. c \<noteq> CHR ''?'') url"
  using split_on_first[of "CHR ''?''" url] by (auto simp: path_of_def)

lemma url_parts_fst: "fst (url_parts url) = takeWhile (\<lambda>c. c \<noteq> CHR ''?'') url"
  using split_on_first[of "CHR ''?''" url] by (auto simp: url_parts_def split: list.splits)

lemma path_of_pathname: "path_of (fst (url_parts url)) = fst (url_parts url)"
  by (simp add: path_of_takeWhile url_parts_fst)

lemma url_parts_no_query: "CHR ''?'' \<notin> set p \<Longrightarrow> url_parts p = (p, None)"
  by (simp add: url_parts_def split_on_absent)

lemma url_parts_query:
  "CHR ''?'' \<notin> set p \<Longrightarrow> CHR ''?'' \<notin> set q \<Longrightarrow> url_parts (p @ ''?'' @ q) = (p, Some q)"
  by (simp add: url_parts_def split_on_append split_on_absent)

lemma assign_all:
  "foldl (\<lambda>query (key, value). js_assign query key value) m ps k =
     (if k = ''__proto__'' then m k
      else (case map_of (rev ps) k of None \<Rightarrow> m k | Some v \<Rightarrow> Some v))"
proof (induction ps arbitrary: m)
  case Nil
  then show ?case by simp
next
  case (Cons a ps)
  obtain key v where a: "a = (key, v)" by (cases a)
  have "foldl (\<lambda>query (key, value). js_assign query key value) m (a # ps) k =
        foldl (\<lambda>query (key, value). js_assign query key value) (js_assign m key v) ps k"
    by (simp add: a)
  also have "\<dots> = (if k = ''__proto__'' then js_assign m key v k
      else (case map_of (rev ps) k of None \<Rightarrow> js_assign m key v k | Some v \<Rightarrow> Some v))"
    by (rule Cons.IH)
  also have "\<dots> = (if k = ''__proto__'' then m k
      else (case map_of (rev (a # ps)) k of None \<Rightarrow> m k | Some v \<Rightarrow> Some v))"
    by (simp add: a js_assign_def map_add_def split: option.splits)
  finally show ?case .
qed

lemma query_of_lookup:
  "query_of (Some q) k =
     (if q = [] \<or> k = ''__proto__'' then None else map_of (rev (URLSearchParams q)) k)"
  by (simp add: query_of_def assign_all split: option.splits)

lemma resolve_query:
  assumes "CHR ''?'' \<notin> set p" "CHR ''?'' \<notin> set q"
  shows "\<exists>rp ps. render_resolve p = Inr (rp, ps, Map.empty)
           \<and> render_resolve (p @ ''?'' @ q) = Inr (rp, ps, query_of (Some q))"
proof -
  have 1: "url_parts p = (p, None)" using assms(1) by (rule url_parts_no_query)
  have 2: "url_parts (p @ ''?'' @ q) = (p, Some q)" using assms by (rule url_parts_query)
  show ?thesis
    using 1 2
    by (cases "findRoute registered p")
       (simp_all add: render_resolve_def render_router_eq query_of_def)
qed

section \<open>Resolution and rendering\<close>

lemma first_match_None:
  "first_match rs p = None \<longleftrightarrow> (\<forall>r\<in>set rs. rx_match (regex r) p = None)"
  by (induction rs) (auto split: option.splits)

lemma not_found_page:
  "renderNotFoundPage render_stores =
     Inr \<lparr>headerLeft = LogoHeader, children = NotFoundContent, cartSize = JNum 0,
          cart = [''items'' \<mapsto> JArr [], ''selectedAll'' \<mapsto> JBool False],
          isOpen = JBool False,
          toast = JObj [(''isVisible'', JBool False), (''message'', JStr []),
                        (''type'', JStr ''info'')]\<rparr>"
  by (simp add: renderNotFoundPage_def ServerPageWrapper_def render_stores_def
      createServerStore_def getState_def state_get_def lookup_prop_def)

lemma resolve_no_match:
  assumes "\<forall>r\<in>set registered. rx_match (regex r) (fst (url_parts url)) = None"
  shows "render_resolve url = Inr (''notfound'', Map.empty, query_of (snd (url_parts url)))"
proof -
  have "findRoute registered (fst (url_parts url)) = None"
    using assms by (simp add: findRoute_def path_of_pathname first_match_None)
  then show ?thesis
    by (simp add: render_resolve_def render_router_eq split_beta)
qed

lemma render_not_found:
  assumes "render_resolve url = Inr (''notfound'', ps, q)"
  shows "render PA db url =
     Inr \<lparr>html = \<lparr>headerLeft = LogoHeader, children = NotFoundContent, cartSize = JNum 0,
          cart = [''items'' \<mapsto> JArr [], ''selectedAll'' \<mapsto> JBool False],
          isOpen = JBool False,
          toast = JObj [(''isVisible'', JBool False), (''message'', JStr []),
                        (''type'', JStr ''info'')]\<rparr>,
          head = NotFoundHead, initialData = JObj []\<rparr>"
  by (simp add: render_def assms prefetch_def render_html_def render_head_def not_found_page)

lemma takeWhile_segment:
  "list_all not_slash seg \<Longrightarrow> takeWhile not_slash (seg @ ''/'') = seg"
  by (induction seg) (simp_all add: not_slash_def)

lemma grp_try_hit:
  "k (drop (Suc n) s) = Some caps \<Longrightarrow> grp_try k s (Suc n) = Some (take (Suc n) s # caps)"
  by simp

lemma product_route_match:
  assumes "seg \<noteq> []" "list_all not_slash seg"
  shows "rx_match (map Chr ''/product/'' @ [Grp, Chr CHR ''/'']) (''/product/'' @ seg @ ''/'') =
         Some [JStr seg]"
proof -
  obtain n where n: "length seg = Suc n" using assms(1) by (cases seg) auto
  have "grp_try (seq_match True [Chr CHR ''/'']) (seg @ ''/'') (Suc n) =
        Some (take (Suc n) (seg @ ''/'') # [])"
    by (rule grp_try_hit) (simp add: n[symmetric])
  then show ?thesis
    using n by (simp add: rx_match_no_bar takeWhile_segment[OF assms(2)])
qed

lemma resolve_product:
  assumes "seg \<noteq> []" "list_all (\<lambda>c. c \<noteq> CHR ''/'' \<and> c \<noteq> CHR ''?'') seg"
  shows "render_resolve (''/product/'' @ seg @ ''/'') =
     Inr (''/product/:id/'', [''id'' \<mapsto> JStr seg], Map.empty)"
proof -
  have ns: "list_all not_slash seg" and nq: "CHR ''?'' \<notin> set seg"
    using assms(2) by (auto simp: list_all_iff not_slash_def)
  have u: "url_parts (''/product/'' @ seg @ ''/'') = (''/product/'' @ seg @ ''/'', None)"
    using nq by (intro url_parts_no_query) simp
  have p: "path_of (''/product/'' @ seg @ ''/'') = ''/product/'' @ seg @ ''/''"
    using nq by (auto simp: path_of_takeWhile)
  have "findRoute registered (''/product/'' @ seg @ ''/'') =
     Some \<lparr>m_handler = ''product'', m_params = [''id'' \<mapsto> JStr seg],
           m_path = ''/product/:id/''\<rparr>"
    unfolding findRoute_def p
    using product_route_match[OF assms(1) ns]
    by (simp add: registered_def build_params_def js_assign_def enumerate_eq_zip
          rx_match_literal[of "''/''", simplified])
  then show ?thesis
    using u by (simp add: render_resolve_def render_router_eq query_of_def)
qed

lemma prefetch_absent:
  assumes "find_item (items db) (JStr seg) = None"
    and "SET_ERROR PA \<notin> {SET_PRODUCTS PA, SET_CATEGORIES PA, SET_CURRENT_PRODUCT PA,
                         SET_RELATED_PRODUCTS PA, SETUP PA}"
  shows "prefetch PA db ''/product/:id/'' [''id'' \<mapsto> JStr seg] q render_stores =
     Inr (render_stores, JObj [])"
  using assms by (simp add: prefetch_def mockGetProduct_def state_get_def dispatch_def)

lemma detail_page_throws: "renderProductDetailPage render_stores = Inl TypeError"
  by (simp add: renderProductDetailPage_def render_stores_def createServerStore_def getState_def
      state_get_def ProductDetail_template_def nullish_def)

lemma render_absent:
  assumes "seg \<noteq> []" "list_all (\<lambda>c. c \<noteq> CHR ''/'' \<and> c \<noteq> CHR ''?'') seg"
    and "find_item (items db) (JStr seg) = None"
    and "SET_ERROR PA \<notin> {SET_PRODUCTS PA, SET_CATEGORIES PA, SET_CURRENT_PRODUCT PA,
                         SET_RELATED_PRODUCTS PA, SETUP PA}"
  shows "render PA db (''/product/'' @ seg @ ''/'') = Inl TypeError"
  using resolve_product[OF assms(1,2)] prefetch_absent[OF assms(3,4)]
  by (simp add: render_def render_html_def detail_page_throws)

section \<open>The claims on routing and rendering\<close>

text \<open>
  Claim C3. Resolving \<open>/product/42/?ref=home\<close>: \<open>findRoute\<close> matches the path against
  the registered pattern \<open>/product/:id/\<close> (handler \<open>product\<close>) and binds the captured
  segment, so the route parameters are \<open>{id: "42"}\<close>; \<open>render\<close> parses the query string
  into \<open>{ref: "home"}\<close>, and for this route path it renders the product detail page.
\<close>

theorem resolve_product_detail_example:
  "render_router = Inr registered
   \<and> findRoute registered ''/product/42/?ref=home'' =
       Some \<lparr>m_handler = ''product'', m_params = [''id'' \<mapsto> JStr ''42''],
             m_path = ''/product/:id/''\<rparr>
   \<and> render_resolve ''/product/42/?ref=home'' =
       Inr (''/product/:id/'', [''id'' \<mapsto> JStr ''42''], [''ref'' \<mapsto> ''home''])
   \<and> render_html ''/product/:id/'' sts query = renderProductDetailPage sts"
proof -
  have f: "findRoute registered ''/product/42/?ref=home'' =
       Some \<lparr>m_handler = ''product'', m_params = [''id'' \<mapsto> JStr ''42''],
             m_path = ''/product/:id/''\<rparr>"
    by (simp add: registered_def findRoute_def path_of_def not_slash_def build_params_def
          js_assign_def enumerate_eq_zip rx_match_no_bar)
  have u: "url_parts ''/product/42/?ref=home'' = (''/product/42/'', Some ''ref=home'')"
    by code_simp
  have g: "findRoute registered ''/product/42/'' =
       Some \<lparr>m_handler = ''product'', m_params = [''id'' \<mapsto> JStr ''42''],
             m_path = ''/product/:id/''\<rparr>"
    by (simp add: registered_def findRoute_def path_of_def not_slash_def build_params_def
          js_assign_def enumerate_eq_zip rx_match_no_bar)
  have s: "URLSearchParams ''ref=home'' = [(''ref'', ''home'')]"
    by code_simp
  have q: "query_of (Some ''ref=home'') = [''ref'' \<mapsto> ''home'']"
    by (simp add: query_of_def s js_assign_def)
  have r: "render_resolve ''/product/42/?ref=home'' =
       Inr (''/product/:id/'', [''id'' \<mapsto> JStr ''42''], [''ref'' \<mapsto> ''home''])"
    by (simp add: render_resolve_def u render_router_eq g q)
  have h: "render_html ''/product/:id/'' sts query = renderProductDetailPage sts"
    by (simp add: render_html_def)
  from render_router_eq f r h show ?thesis by blast
qed

text \<open>
  Claim C4. For every URL whose path matches none of the registered patterns, resolution
  gives the route path \<open>notfound\<close> with empty route parameters and the query mapping parsed
  from the URL, and \<open>render\<close> returns normally with the not-found page, the not-found
  head and an empty \<open>initialData\<close>.
\<close>

theorem render_unmatched_path:
  assumes "\<forall>r\<in>set registered. rx_match (regex r) (fst (url_parts url)) = None"
  shows "render_router = Inr registered
    \<and> render_resolve url = Inr (''notfound'', Map.empty, query_of (snd (url_parts url)))
    \<and> render PA db url =
        Inr \<lparr>html = \<lparr>headerLeft = LogoHeader, children = NotFoundContent, cartSize = JNum 0,
               cart = [''items'' \<mapsto> JArr [], ''selectedAll'' \<mapsto> JBool False],
               isOpen = JBool False,
               toast = JObj [(''isVisible'', JBool False), (''message'', JStr []),
                             (''type'', JStr ''info'')]\<rparr>,
             head = NotFoundHead, initialData = JObj []\<rparr>"
  using render_router_eq resolve_no_match[OF assms] render_not_found[OF resolve_no_match[OF assms]]
  by blast

theorem render_unmatched_path_witness:
  "render_resolve ''/unknown?x=1'' = Inr (''notfound'', Map.empty, [''x'' \<mapsto> ''1''])
   \<and> render PRODUCT_ACTIONS demo_db ''/unknown?x=1'' =
        Inr \<lparr>html = \<lparr>headerLeft = LogoHeader, children = NotFoundContent, cartSize = JNum 0,
               cart = [''items'' \<mapsto> JArr [], ''selectedAll'' \<mapsto> JBool False],
               isOpen = JBool False,
               toast = JObj [(''isVisible'', JBool False), (''message'', JStr []),
                             (''type'', JStr ''info'')]\<rparr>,
             head = NotFoundHead, initialData = JObj []\<rparr>"
proof -
  have u: "url_parts ''/unknown?x=1'' = (''/unknown'', Some ''x=1'')"
    by code_simp
  have n: "\<forall>r\<in>set registered. rx_match (regex r) (fst (url_parts ''/unknown?x=1'')) = None"
    by (simp add: u registered_def rx_match_no_bar)
  have s: "URLSearchParams ''x=1'' = [(''x'', ''1'')]"
    by code_simp
  have q: "query_of (snd (url_parts ''/unknown?x=1'')) = [''x'' \<mapsto> ''1'']"
    by (simp add: u query_of_def s js_assign_def)
  from render_unmatched_path[OF n, of PRODUCT_ACTIONS demo_db] q show ?thesis
    by simp
qed

text \<open>
  Claim C6. For a product id that is not in the dataset, \<open>render("/product/<id>/")\<close>
  dispatches the error action, but the server store has no case for it: the product store
  stays as it was (its \<open>error\<close> field \<open>null\<close>), \<open>renderProductDetailPage\<close> takes the
  product branch with the \<open>null\<close> product, and \<open>render\<close> ends with a TypeError instead of
  an error page. The id is a path segment (not empty, without \<open>/\<close> and \<open>?\<close>) and the error
  kind differs from the five handled kinds.
\<close>

theorem render_absent_product_throws:
  assumes "seg \<noteq> []" "list_all (\<lambda>c. c \<noteq> CHR ''/'' \<and> c \<noteq> CHR ''?'') seg"
    and "find_item (items db) (JStr seg) = None"
    and "SET_ERROR PA \<notin> {SET_PRODUCTS PA, SET_CATEGORIES PA, SET_CURRENT_PRODUCT PA,
                         SET_RELATED_PRODUCTS PA, SETUP PA}"
  shows "render_resolve (''/product/'' @ seg @ ''/'') =
           Inr (''/product/:id/'', [''id'' \<mapsto> JStr seg], Map.empty)
    \<and> prefetch PA db ''/product/:id/'' [''id'' \<mapsto> JStr seg] Map.empty render_stores =
           Inr (render_stores, JObj [])
    \<and> productStore render_stores ''error'' = Some JNull
    \<and> render PA db (''/product/'' @ seg @ ''/'') = Inl TypeError"
proof -
  have "productStore render_stores ''error'' = Some JNull"
    by (simp add: render_stores_def createServerStore_def)
  with resolve_product[OF assms(1,2)] prefetch_absent[OF assms(3,4)] render_absent[OF assms]
  show ?thesis by blast
qed

theorem render_absent_product_throws_witness:
  "render PRODUCT_ACTIONS demo_db ''/product/999/'' = Inl TypeError
   \<and> prefetch PRODUCT_ACTIONS demo_db ''/product/:id/'' [''id'' \<mapsto> JStr ''999''] Map.empty
       render_stores = Inr (render_stores, JObj [])"
  using render_absent_product_throws[of "''999''" demo_db PRODUCT_ACTIONS]
  by (simp add: demo_db_def demo_item_def find_item_def PRODUCT_ACTIONS_def)

text \<open>
  Claim C7, as the code has it. For every pattern that ends in \<open>/\<close> and has no syntax
  character of regular expressions (such as \<open>/product/:id/\<close>), the compiled route matches
  only paths that end in \<open>/\<close>: \<open>/product/42/\<close> matches the detail pattern, while
  \<open>/product/42\<close> matches no registered pattern and resolves to not-found.
\<close>

theorem trailing_separator_significant:
  assumes "list_all (\<lambda>c. \<not> syntax_char c) p" "p \<noteq> []" "last p = CHR ''/''"
  shows "(\<exists>rx. addRoute p h routes =
              Inr (routes @ [\<lparr>path = p, regex = rx, paramNames = snd (replace_params p),
                              handler = h\<rparr>])
            \<and> (\<forall>s caps. rx_match rx s = Some caps \<longrightarrow> s \<noteq> [] \<and> last s = CHR ''/''))
   \<and> findRoute registered ''/product/42/'' =
       Some \<lparr>m_handler = ''product'', m_params = [''id'' \<mapsto> JStr ''42''],
             m_path = ''/product/:id/''\<rparr>
   \<and> findRoute registered ''/product/42'' = None
   \<and> render_resolve ''/product/42'' = Inr (''notfound'', Map.empty, Map.empty)"
proof -
  obtain ts where ts: "RegExp_body (fst (replace_params p)) = Inr ts" and nb: "Bar \<notin> set ts"
    using replace_params_regex[OF assms(1)] by blast
  have a: "addRoute p h routes =
      Inr (routes @ [\<lparr>path = p, regex = ts, paramNames = snd (replace_params p),
                      handler = h\<rparr>])"
    using ts by (simp add: addRoute_def split_beta new_RegExp_anchored del: replace_params.simps)
  have "fst (replace_params p) \<noteq> [] \<and> last (fst (replace_params p)) = CHR ''/''"
    using assms(2,3) by (rule replace_params_last)
  with ts have l: "ts \<noteq> [] \<and> last ts = Chr CHR ''/''"
    using RegExp_body_last by blast
  have b: "\<forall>s caps. rx_match ts s = Some caps \<longrightarrow> s \<noteq> [] \<and> last s = CHR ''/''"
    using rx_match_last[OF nb] l by blast
  have f: "findRoute registered ''/product/42/'' =
       Some \<lparr>m_handler = ''product'', m_params = [''id'' \<mapsto> JStr ''42''],
             m_path = ''/product/:id/''\<rparr>"
    by (simp add: registered_def findRoute_def path_of_def not_slash_def build_params_def
          js_assign_def enumerate_eq_zip rx_match_no_bar)
  have g: "findRoute registered ''/product/42'' = None"
    by code_simp
  have u: "url_parts ''/product/42'' = (''/product/42'', None)"
    by code_simp
  have r: "render_resolve ''/product/42'' = Inr (''notfound'', Map.empty, Map.empty)"
    by (simp add: render_resolve_def u render_router_eq g query_of_def)
  from a b f g r show ?thesis by blast
qed

theorem trailing_separator_significant_witness:
  "addRoute ''/product/:id/'' ''product'' [] =
     Inr [\<lparr>path = ''/product/:id/'', regex = map Chr ''/product/'' @ [Grp, Chr CHR ''/''],
           paramNames = [''id''], handler = ''product''\<rparr>]
   \<and> rx_match (map Chr ''/product/'' @ [Grp, Chr CHR ''/'']) ''/product/42/'' = Some [JStr ''42'']
   \<and> rx_match (map Chr ''/product/'' @ [Grp, Chr CHR ''/'']) ''/product/42'' = None
   \<and> last ''/product/42/'' = CHR ''/''"
proof -
  have p: "list_all (\<lambda>c. \<not> syntax_char c) ''/product/:id/''"
    by (simp add: syntax_char_def)
  have a: "addRoute ''/product/:id/'' ''product'' [] =
     Inr [\<lparr>path = ''/product/:id/'', regex = map Chr ''/product/'' @ [Grp, Chr CHR ''/''],
           paramNames = [''id''], handler = ''product''\<rparr>]"
    by code_simp
  have m: "rx_match (map Chr ''/product/'' @ [Grp, Chr CHR ''/'']) ''/product/42/'' =
           Some [JStr ''42'']"
    by (simp add: not_slash_def rx_match_no_bar)
  have n: "rx_match (map Chr ''/product/'' @ [Grp, Chr CHR ''/'']) ''/product/42'' = None"
    by (simp add: not_slash_def rx_match_no_bar)
  from trailing_separator_significant[OF p, of "''product''" "[]"] a
  have "\<forall>s caps. rx_match (map Chr ''/product/'' @ [Grp, Chr CHR ''/'']) s = Some caps
          \<longrightarrow> s \<noteq> [] \<and> last s = CHR ''/''"
    by auto
  with m have "last ''/product/42/'' = CHR ''/''" by blast
  with a m n show ?thesis by blast
qed

text \<open>
  A pattern that ends in \<open>/\<close> and has an alternation bar is compiled to an expression
  whose first alternative carries the \<open>^\<close> alone: \<open>/a|b/\<close> is registered and matches the
  path \<open>/a\<close>, which does not end in \<open>/\<close>.
\<close>

theorem trailing_separator_alternation:
  "addRoute ''/a|b/'' ''page'' [] =
     Inr [\<lparr>path = ''/a|b/'',
           regex = [Chr CHR ''/'', Chr CHR ''a'', Bar, Chr CHR ''b'', Chr CHR ''/''],
           paramNames = [], handler = ''page''\<rparr>]
   \<and> last ''/a|b/'' = CHR ''/''
   \<and> rx_match [Chr CHR ''/'', Chr CHR ''a'', Bar, Chr CHR ''b'', Chr CHR ''/''] ''/a'' = Some []
   \<and> findRoute [\<lparr>path = ''/a|b/'',
                  regex = [Chr CHR ''/'', Chr CHR ''a'', Bar, Chr CHR ''b'', Chr CHR ''/''],
                  paramNames = [], handler = ''page''\<rparr>] ''/a'' =
       Some \<lparr>m_handler = ''page'', m_params = Map.empty, m_path = ''/a|b/''\<rparr>
   \<and> last ''/a'' = CHR ''a''"
proof -
  have a: "addRoute ''/a|b/'' ''page'' [] =
     Inr [\<lparr>path = ''/a|b/'',
           regex = [Chr CHR ''/'', Chr CHR ''a'', Bar, Chr CHR ''b'', Chr CHR ''/''],
           paramNames = [], handler = ''page''\<rparr>]"
    by code_simp
  have m: "rx_match [Chr CHR ''/'', Chr CHR ''a'', Bar, Chr CHR ''b'', Chr CHR ''/''] ''/a'' =
           Some []"
    by code_simp
  have f: "findRoute [\<lparr>path = ''/a|b/'',
                  regex = [Chr CHR ''/'', Chr CHR ''a'', Bar, Chr CHR ''b'', Chr CHR ''/''],
                  paramNames = [], handler = ''page''\<rparr>] ''/a'' =
       Some \<lparr>m_handler = ''page'', m_params = Map.empty, m_path = ''/a|b/''\<rparr>"
    by (simp add: findRoute_def path_of_def m build_params_def)
  from a m f show ?thesis by simp
qed

text \<open>
  Claim C8, as the code has it. For a URL with at most one \<open>?\<close>, resolution takes the text
  before the \<open>?\<close> as the path and the text after it as the query string: the route part
  of the result is that of the path alone, and the query mapping gives every key other
  than \<open>__proto__\<close> the value of its last occurrence among the parsed pairs (no mapping for
  an empty query string, and never an entry for \<open>__proto__\<close>). Nothing is discarded at a
  \<open>#\<close>: it is an ordinary character of the path or of a query value.
\<close>

theorem resolve_path_and_query:
  assumes "CHR ''?'' \<notin> set p" "CHR ''?'' \<notin> set q"
  shows "(\<exists>rp ps. render_resolve p = Inr (rp, ps, Map.empty)
            \<and> render_resolve (p @ ''?'' @ q) = Inr (rp, ps, query_of (Some q)))
       \<and> (\<forall>k. query_of (Some q) k =
             (if q = [] \<or> k = ''__proto__'' then None
              else map_of (rev (URLSearchParams q)) k))"
  using resolve_query[OF assms] query_of_lookup by blast

theorem resolve_path_and_query_witness:
  "(\<exists>rp ps. render_resolve ''/'' = Inr (rp, ps, Map.empty)
        \<and> render_resolve ''/?a=1&a=2#top'' = Inr (rp, ps, query_of (Some ''a=1&a=2#top'')))
   \<and> query_of (Some ''a=1&a=2#top'') ''a'' = Some ''2#top''"
proof -
  have s: "URLSearchParams ''a=1&a=2#top'' = [(''a'', ''1''), (''a'', ''2#top'')]"
    by code_simp
  from resolve_path_and_query[of "''/''" "''a=1&a=2#top''"] show ?thesis
    by (simp add: s)
qed

text \<open>
  The fragment is not discarded: \<open>/#top\<close> does not resolve as \<open>/\<close> does but to not-found,
  and the query value of \<open>/?a=1#top\<close> is \<open>1#top\<close>; and a key \<open>__proto__\<close> is not stored.
\<close>

theorem resolve_keeps_fragment:
  "render_resolve ''/'' = Inr (''/'', Map.empty, Map.empty)
   \<and> render_resolve ''/#top'' = Inr (''notfound'', Map.empty, Map.empty)
   \<and> render_resolve ''/?a=1'' = Inr (''/'', Map.empty, [''a'' \<mapsto> ''1''])
   \<and> render_resolve ''/?a=1#top'' = Inr (''/'', Map.empty, [''a'' \<mapsto> ''1#top''])
   \<and> query_of (Some ''__proto__=x&__proto__=y'') = Map.empty"
proof -
  have u: "url_parts ''/'' = (''/'', None)" "url_parts ''/#top'' = (''/#top'', None)"
    "url_parts ''/?a=1'' = (''/'', Some ''a=1'')"
    "url_parts ''/?a=1#top'' = (''/'', Some ''a=1#top'')"
    by code_simp+
  have f: "findRoute registered ''/'' =
      Some \<lparr>m_handler = ''home'', m_params = Map.empty, m_path = ''/''\<rparr>"
    by (simp add: registered_def findRoute_def path_of_def build_params_def rx_match_no_bar)
  have g: "findRoute registered ''/#top'' = None"
    by code_simp
  have s: "URLSearchParams ''a=1'' = [(''a'', ''1'')]"
    "URLSearchParams ''a=1#top'' = [(''a'', ''1#top'')]"
    "URLSearchParams ''__proto__=x&__proto__=y'' = [(''__proto__'', ''x''), (''__proto__'', ''y'')]"
    by code_simp+
  have 1: "render_resolve ''/'' = Inr (''/'', Map.empty, Map.empty)"
    by (simp add: render_resolve_def u render_router_eq f query_of_def)
  have 2: "render_resolve ''/#top'' = Inr (''notfound'', Map.empty, Map.empty)"
    by (simp add: render_resolve_def u render_router_eq g query_of_def)
  have 3: "render_resolve ''/?a=1'' = Inr (''/'', Map.empty, [''a'' \<mapsto> ''1''])"
    by (simp add: render_resolve_def u render_router_eq f query_of_def s js_assign_def)
  have 4: "render_resolve ''/?a=1#top'' = Inr (''/'', Map.empty, [''a'' \<mapsto> ''1#top''])"
    by (simp add: render_resolve_def u render_router_eq f query_of_def s js_assign_def)
  have 5: "query_of (Some ''__proto__=x&__proto__=y'') = Map.empty"
    by (simp add: query_of_def s js_assign_def)
  from 1 2 3 4 5 show ?thesis by blast
qed

text \<open>
  Claim C9, as the code has it. \<open>addRoute\<close> checks nothing about parameter markers: for
  every pattern none of whose characters is a syntax character of regular expressions it
  registers the route without error, and where no \<open>:\<close> of the pattern is followed by a
  name (so also where a \<open>:\<close> stands before \<open>/\<close> or at the end) the pattern is compiled as
  literal text, which matches the pattern itself and nothing else.
\<close>

theorem addRoute_accepts_plain_patterns:
  assumes "list_all (\<lambda>c. \<not> syntax_char c) p"
  shows "\<exists>rx. addRoute p h routes =
           Inr (routes @ [\<lparr>path = p, regex = rx, paramNames = snd (replace_params p),
                           handler = h\<rparr>])
         \<and> (snd (replace_params p) = [] \<longrightarrow>
              (\<forall>s. rx_match rx s = (if s = p then Some [] else None)))"
proof -
  obtain ts where ts: "RegExp_body (fst (replace_params p)) = Inr ts"
    using replace_params_regex[OF assms] by blast
  have a: "addRoute p h routes =
      Inr (routes @ [\<lparr>path = p, regex = ts, paramNames = snd (replace_params p),
                      handler = h\<rparr>])"
    using ts by (simp add: addRoute_def split_beta new_RegExp_anchored del: replace_params.simps)
  have b: "snd (replace_params p) = [] \<longrightarrow>
        (\<forall>s. rx_match ts s = (if s = p then Some [] else None))"
  proof
    assume "snd (replace_params p) = []"
    then have "fst (replace_params p) = p" by (rule replace_params_none)
    with ts have "ts = map Chr p" using RegExp_body_literal[OF assms] by simp
    then show "\<forall>s. rx_match ts s = (if s = p then Some [] else None)"
      by (simp add: rx_match_literal)
  qed
  from a b show ?thesis by blast
qed

theorem addRoute_accepts_plain_patterns_witness:
  "\<exists>rx. addRoute ''/product/:'' ''detail'' [] =
           Inr ([] @ [\<lparr>path = ''/product/:'', regex = rx, paramNames = [], handler = ''detail''\<rparr>])
         \<and> rx_match rx ''/product/:'' = Some []
         \<and> rx_match rx ''/product/42'' = None"
proof -
  have p: "list_all (\<lambda>c. \<not> syntax_char c) ''/product/:''"
    by (simp add: syntax_char_def)
  have n: "snd (replace_params ''/product/:'') = []"
    by code_simp
  from addRoute_accepts_plain_patterns[OF p, of "''detail''" "[]"] n show ?thesis
    by auto
qed

text \<open>
  A pattern with an unterminated parameter marker is registered, not rejected, and is
  found when the path is the pattern's own text.
\<close>

theorem addRoute_bare_marker_registered:
  "addRoute ''/product/:'' ''detail'' [] =
     Inr [\<lparr>path = ''/product/:'', regex = map Chr ''/product/:'', paramNames = [],
           handler = ''detail''\<rparr>]
   \<and> findRoute [\<lparr>path = ''/product/:'', regex = map Chr ''/product/:'', paramNames = [],
                  handler = ''detail''\<rparr>] ''/product/:'' =
       Some \<lparr>m_handler = ''detail'', m_params = Map.empty, m_path = ''/product/:''\<rparr>"
proof -
  have a: "addRoute ''/product/:'' ''detail'' [] =
     Inr [\<lparr>path = ''/product/:'', regex = map Chr ''/product/:'', paramNames = [],
           handler = ''detail''\<rparr>]"
    by code_simp
  have b: "findRoute [\<lparr>path = ''/product/:'', regex = map Chr ''/product/:'', paramNames = [],
                  handler = ''detail''\<rparr>] ''/product/:'' =
       Some \<lparr>m_handler = ''detail'', m_params = Map.empty, m_path = ''/product/:''\<rparr>"
    by (simp add: findRoute_def path_of_def build_params_def rx_match_no_bar)
  from a b show ?thesis by blast
qed

end
